theory Spec2Isabelle
  imports Main
begin

section \<open>Batching rules for view operators (functorch, BatchRulesViews.cpp)\<close>

text \<open>
  The file \<^verbatim>\<open>BatchRulesViews.cpp\<close> holds the batching rules themselves. What they call
  (the helpers of \<^verbatim>\<open>BatchRulesHelper.h\<close>, the operators of the tensor library and the
  vmap plumbing) is declared elsewhere; those parts are modelled below, each marked as
  such, and the rules are translated line by line on top of them.

  Integers of the source (\<^verbatim>\<open>int64_t\<close>) are \<^typ>\<open>int\<close>; no arithmetic of the rules comes
  near the 64-bit range for a tensor that fits in memory. Sizes and strides stored in a
  tensor are never negative and are \<^typ>\<open>nat\<close>.
\<close>

subsection \<open>Errors\<close>

datatype error =
    IndexError string
  | CheckError string
  | RuntimeError string
  | InternalAssert string
  | Undefined string

text \<open>
  \<^item> \<^term>\<open>IndexError\<close>: \<^verbatim>\<open>c10::IndexError\<close>, a dimension or index out of range.
  \<^item> \<^term>\<open>CheckError\<close>: a failed \<^verbatim>\<open>TORCH_CHECK\<close> (\<^verbatim>\<open>c10::Error\<close>), a usage error.
  \<^item> \<^term>\<open>RuntimeError\<close>: \<^verbatim>\<open>std::runtime_error\<close> thrown by a rule.
  \<^item> \<^term>\<open>InternalAssert\<close>: a failed \<^verbatim>\<open>TORCH_INTERNAL_ASSERT\<close> (it throws
    \<^verbatim>\<open>c10::Error\<close>; the process goes on).
  \<^item> \<^term>\<open>Undefined\<close>: the C++ has no defined behaviour (reading an empty
    \<^verbatim>\<open>optional\<close>, an iterator past the end).
\<close>

definition bind :: "error + 'a \<Rightarrow> ('a \<Rightarrow> error + 'b) \<Rightarrow> error + 'b" where
  "bind x f = (case x of Inl e \<Rightarrow> Inl e | Inr v \<Rightarrow> f v)"

subsection \<open>Tensors: strided views of storage buffers\<close>

text \<open>
  Modelled from the spec: the type \<^verbatim>\<open>Tensor\<close>, declared outside the sources here, "a
  multi-dimensional array value with shape (ordered sequence of dimension sizes) and
  strides". A tensor is the metadata of a \<^verbatim>\<open>TensorImpl\<close>: which storage buffer it reads,
  from which offset, with which sizes and strides. The buffers live in the memory, by
  identifier; \<^verbatim>\<open>next_id\<close> is the next free identifier and \<^verbatim>\<open>uninit\<close> what a cell
  holds before anything was written to it. Element \<open>idx\<close> of
  a tensor is the cell at its offset plus the sum of index times stride; the library
  never builds a tensor that reaches outside its buffer, and the model has no error for
  such a read.
\<close>

record tensor =
  storage :: nat
  offset :: nat
  sizes :: "nat list"
  strides :: "nat list"

record 'a mem =
  cells :: "nat \<Rightarrow> 'a list"
  next_id :: nat
  uninit :: "nat \<Rightarrow> 'a"

definition tensor_dim :: "tensor \<Rightarrow> nat" where
  "tensor_dim t = length (sizes t)"

definition lin :: "nat list \<Rightarrow> nat list \<Rightarrow> nat" where
  "lin idx strds = sum_list (map2 (*) idx strds)"

definition elem :: "'a mem \<Rightarrow> tensor \<Rightarrow> nat list \<Rightarrow> 'a" where
  "elem m t idx = cells m (storage t) ! (offset t + lin idx (strides t))"

fun all_idx :: "nat list \<Rightarrow> nat list list" where
  "all_idx [] = [[]]"
| "all_idx (n # ns) = concat (map (\<lambda>i. map ((#) i) (all_idx ns)) [0..<n])"

fun contiguous_strides :: "nat list \<Rightarrow> nat list" where
  "contiguous_strides [] = []"
| "contiguous_strides (n # ns) = prod_list (map (max 1) ns) # contiguous_strides ns"

definition new_tensor :: "nat list \<Rightarrow> 'a list \<Rightarrow> 'a mem \<Rightarrow> tensor \<times> 'a mem" where
  "new_tensor szs xs m =
     (\<lparr>storage = next_id m, offset = 0, sizes = szs, strides = contiguous_strides szs\<rparr>,
      m\<lparr>cells := (cells m)(next_id m := xs), next_id := Suc (next_id m)\<rparr>)"

text \<open>
  \<^term>\<open>all_idx\<close> lists the indices of a shape in row-major order, \<^term>\<open>new_tensor\<close>
  allocates a fresh buffer holding the given elements in that order. Two tensors hold
  the same values when their shapes agree and every index reads the same element.
\<close>

definition same_values :: "'a mem \<Rightarrow> tensor \<Rightarrow> 'a mem \<Rightarrow> tensor \<Rightarrow> bool" where
  "same_values m1 t1 m2 t2 \<longleftrightarrow>
     sizes t1 = sizes t2 \<and> list_all (\<lambda>idx. elem m1 t1 idx = elem m2 t2 idx) (all_idx (sizes t1))"

definition insert_at :: "nat \<Rightarrow> 'a \<Rightarrow> 'a list \<Rightarrow> 'a list" where
  "insert_at i x xs = take i xs @ x # drop i xs"

definition remove_at :: "nat \<Rightarrow> 'a list \<Rightarrow> 'a list" where
  "remove_at i xs = take i xs @ drop (Suc i) xs"

subsection \<open>The tensor library's operators\<close>

text \<open>
  Modelled from the spec: the host library's dimension wrapping \<^verbatim>\<open>maybe_wrap_dim\<close>
  ("standard negative-index wrap semantics"), which the sources here only call. A
  dimension \<open>d\<close> is accepted in \<open>[-n, n)\<close> and a negative one counts from the end; a
  range of zero dimensions is widened to one.
\<close>

definition maybe_wrap_dim :: "int \<Rightarrow> int \<Rightarrow> error + nat" where
  "maybe_wrap_dim d dim_post_expr =
     (let n = (if dim_post_expr \<le> 0 then 1 else dim_post_expr) in
      if d < - n \<or> n - 1 < d then Inl (IndexError ''Dimension out of range'')
      else Inr (nat (if d < 0 then d + n else d)))"

text \<open>
  Modelled from the spec: \<^verbatim>\<open>Tensor::size(dim)\<close>, the size of one axis; a tensor of no
  dimensions has none to ask for.
\<close>

definition tensor_size :: "tensor \<Rightarrow> int \<Rightarrow> error + nat" where
  "tensor_size t d =
     (if tensor_dim t = 0 then Inl (IndexError ''tensor has no dimensions'')
      else bind (maybe_wrap_dim d (int (tensor_dim t))) (\<lambda>w. Inr (sizes t ! w)))"

text \<open>
  Modelled from the spec: \<^verbatim>\<open>Tensor::movedim(source, destination)\<close>, a view with one axis
  moved to a new position and the others kept in order.
\<close>

definition movedim :: "tensor \<Rightarrow> int \<Rightarrow> int \<Rightarrow> error + tensor" where
  "movedim t src dst =
     bind (maybe_wrap_dim src (int (tensor_dim t))) (\<lambda>s.
     bind (maybe_wrap_dim dst (int (tensor_dim t))) (\<lambda>d.
       if tensor_dim t = 0 then Inr t
       else Inr (t\<lparr>sizes := insert_at d (sizes t ! s) (remove_at s (sizes t)),
                   strides := insert_at d (strides t ! s) (remove_at s (strides t))\<rparr>)))"

text \<open>
  Modelled from the spec: \<^verbatim>\<open>Tensor::unsqueeze(dim)\<close>, a view with a new axis of size 1
  at \<open>dim\<close>, wrapped over one more than the tensor's rank.
\<close>

definition unsqueeze :: "tensor \<Rightarrow> int \<Rightarrow> error + tensor" where
  "unsqueeze t d =
     bind (maybe_wrap_dim d (int (tensor_dim t) + 1)) (\<lambda>w.
       let new_stride = (if tensor_dim t \<le> w then 1 else sizes t ! w * strides t ! w) in
       Inr (t\<lparr>sizes := insert_at w 1 (sizes t),
               strides := insert_at w new_stride (strides t)\<rparr>))"

text \<open>
  Modelled from the spec: \<^verbatim>\<open>Tensor::select(dim, index)\<close>, the view that fixes one axis
  at one index: "indexing a batch slot".
\<close>

definition select :: "tensor \<Rightarrow> int \<Rightarrow> int \<Rightarrow> error + tensor" where
  "select t d i =
     (if tensor_dim t = 0 then Inl (IndexError ''select() cannot be applied to a 0-dim tensor'')
      else bind (maybe_wrap_dim d (int (tensor_dim t))) (\<lambda>w.
        let n = int (sizes t ! w) in
        if i < - n \<or> n \<le> i then Inl (IndexError ''select(): index out of range'')
        else let j = nat (if i < 0 then i + n else i) in
          Inr (t\<lparr>offset := offset t + j * strides t ! w,
                  sizes := remove_at w (sizes t),
                  strides := remove_at w (strides t)\<rparr>)))"

text \<open>
  Modelled from the spec: \<^verbatim>\<open>at::diagonal(self, offset, dim1, dim2)\<close>, the view of a
  diagonal: the two axes are removed and the diagonal becomes the last axis.
\<close>

definition at_diagonal :: "tensor \<Rightarrow> int \<Rightarrow> int \<Rightarrow> int \<Rightarrow> error + tensor" where
  "at_diagonal t k dim1 dim2 =
     bind (maybe_wrap_dim dim1 (int (tensor_dim t))) (\<lambda>d1.
     bind (maybe_wrap_dim dim2 (int (tensor_dim t))) (\<lambda>d2.
       if d1 = d2 then Inl (CheckError ''diagonal dimensions cannot be identical'')
       else
         let n1 = int (sizes t ! d1); n2 = int (sizes t ! d2);
             diag_size = nat (if 0 \<le> k then max (min n1 (n2 - k)) 0 else max (min (n1 + k) n2) 0);
             off = (if diag_size = 0 then offset t
                    else if 0 \<le> k then offset t + nat k * strides t ! d2
                    else offset t + nat (- k) * strides t ! d1)
         in Inr (t\<lparr>offset := off,
                    sizes := remove_at (min d1 d2) (remove_at (max d1 d2) (sizes t)) @ [diag_size],
                    strides := remove_at (min d1 d2) (remove_at (max d1 d2) (strides t))
                               @ [strides t ! d1 + strides t ! d2]\<rparr>)))"

text \<open>
  Modelled from the spec: \<^verbatim>\<open>Tensor::clone()\<close>, a materialized copy: a fresh buffer with
  the same shape and the same elements. (The copy is laid out in row-major order.)
\<close>

definition clone :: "tensor \<Rightarrow> 'a mem \<Rightarrow> tensor \<times> 'a mem" where
  "clone t m = new_tensor (sizes t) (map (elem m t) (all_idx (sizes t))) m"

text \<open>
  Modelled from the spec: \<^verbatim>\<open>at::diag_embed(self, offset)\<close> with its default axes
  (\<open>-2\<close> and \<open>-1\<close>): a fresh tensor whose last two axes form a square matrix, zero
  except for the diagonal \<open>offset\<close>, which holds the last axis of the input.
\<close>

definition at_diag_embed :: "tensor \<Rightarrow> int \<Rightarrow> 'a::zero mem \<Rightarrow> error + (tensor \<times> 'a mem)" where
  "at_diag_embed t k m =
     bind (tensor_size t (- 1)) (\<lambda>n.
       let new_dim_len = nat \<bar>k\<bar> + n;
           r = tensor_dim t - 1;
           new_sizes = butlast (sizes t) @ [new_dim_len, new_dim_len]
       in Inr (new_tensor new_sizes
                 (map (\<lambda>idx. let i = idx ! r; j = idx ! Suc r in
                          if int j - int i = k
                          then elem m t (take r idx @ [if 0 \<le> k then i else j])
                          else 0)
                      (all_idx new_sizes)) m))"

text \<open>
  Modelled from the spec: the plain operator \<^verbatim>\<open>at::diag(self, diagonal)\<close>. A vector
  gives the square matrix with the vector on the chosen diagonal ("construction"), a
  matrix gives the chosen diagonal as a fresh vector ("extraction"); the operator is
  defined for rank 1 and 2 only.
\<close>

definition at_diag :: "tensor \<Rightarrow> int \<Rightarrow> 'a::zero mem \<Rightarrow> error + (tensor \<times> 'a mem)" where
  "at_diag t k m =
     (if tensor_dim t = 1 then
        let n = sizes t ! 0; len = nat \<bar>k\<bar> + n in
        Inr (new_tensor [len, len]
               (map (\<lambda>idx. let i = idx ! 0; j = idx ! 1 in
                        if int j - int i = k then elem m t [if 0 \<le> k then i else j] else 0)
                    (all_idx [len, len])) m)
      else if tensor_dim t = 2 then
        let n1 = int (sizes t ! 0); n2 = int (sizes t ! 1);
            len = nat (if 0 \<le> k then max (min n1 (n2 - k)) 0 else max (min (n1 + k) n2) 0)
        in Inr (new_tensor [len]
               (map (\<lambda>idx. let d = idx ! 0 in
                        elem m t (if 0 \<le> k then [d, d + nat k] else [d + nat (- k), d]))
                    (all_idx [len])) m)
      else Inl (CheckError ''diag(): expected a vector or a matrix''))"

text \<open>
  Modelled from the spec: \<^verbatim>\<open>Tensor::repeat(repeats)\<close>, tiling: the input's shape is
  padded with leading 1s to the length of \<open>repeats\<close>, every axis is multiplied by its
  factor, and the fresh result reads the input periodically.
\<close>

definition at_repeat :: "tensor \<Rightarrow> int list \<Rightarrow> 'a mem \<Rightarrow> error + (tensor \<times> 'a mem)" where
  "at_repeat t repeats m =
     (if length repeats < tensor_dim t
      then Inl (CheckError ''Number of dimensions of repeat dims can not be smaller than number of dimensions of tensor'')
      else if list_ex (\<lambda>r. r < 0) repeats
      then Inl (CheckError ''Trying to create tensor with negative dimension'')
      else
        let num_new_dimensions = length repeats - tensor_dim t;
            padded_size = replicate num_new_dimensions 1 @ sizes t;
            target_size = map2 (\<lambda>s r. s * nat r) padded_size repeats
        in Inr (new_tensor target_size
                  (map (\<lambda>idx. elem m t (drop num_new_dimensions (map2 (\<lambda>i s. i mod s) idx padded_size)))
                       (all_idx target_size)) m))"

fun mapM :: "('a \<Rightarrow> error + 'b) \<Rightarrow> 'a list \<Rightarrow> error + 'b list" where
  "mapM f [] = Inr []"
| "mapM f (x # xs) = bind (f x) (\<lambda>y. bind (mapM f xs) (\<lambda>ys. Inr (y # ys)))"

text \<open>
  Modelled from the spec: \<^verbatim>\<open>at::flip(self, dims)\<close>, a fresh tensor with the contents
  reversed along the given axes; an axis may be named once only.
\<close>

definition at_flip :: "tensor \<Rightarrow> int list \<Rightarrow> 'a mem \<Rightarrow> error + (tensor \<times> 'a mem)" where
  "at_flip t dims m =
     bind (mapM (\<lambda>d. maybe_wrap_dim d (int (tensor_dim t))) dims) (\<lambda>ws.
       if \<not> distinct ws then Inl (CheckError ''dim appears multiple times in the list of dims'')
       else Inr (new_tensor (sizes t)
                   (map (\<lambda>idx. elem m t
                           (map (\<lambda>(d, i). if d \<in> set ws then sizes t ! d - 1 - i else i)
                                (enumerate 0 idx)))
                        (all_idx (sizes t))) m))"

text \<open>
  Modelled from the spec: \<^verbatim>\<open>at::sum(self)\<close>, the sum of all elements as a fresh tensor
  of no dimensions. Elements are added exactly (a commutative monoid); the rounding of
  floating point sums is not modelled.
\<close>

definition at_sum :: "tensor \<Rightarrow> 'a::comm_monoid_add mem \<Rightarrow> tensor \<times> 'a mem" where
  "at_sum t m = new_tensor [] [sum_list (map (elem m t) (all_idx (sizes t)))] m"

text \<open>
  Modelled from the spec: the host library's native \<^verbatim>\<open>trace\<close>, the "sum of the diagonal"
  of a matrix: the elements \<open>[i, i]\<close> added up into a fresh tensor of no dimensions.
\<close>

definition at_trace :: "tensor \<Rightarrow> 'a::comm_monoid_add mem \<Rightarrow> error + (tensor \<times> 'a mem)" where
  "at_trace t m =
     (if tensor_dim t \<noteq> 2 then Inl (CheckError ''trace: expected a matrix'')
      else Inr (new_tensor []
                  [sum_list (map (\<lambda>i. elem m t [i, i]) [0..<min (sizes t ! 0) (sizes t ! 1)])] m))"

text \<open>
  Modelled from the spec: the host library's \<^verbatim>\<open>infer_size\<close>, which completes a requested
  shape: one entry may be \<open>-1\<close> and is inferred, and the number of elements must not
  change.
\<close>

definition infer_size :: "int list \<Rightarrow> nat \<Rightarrow> error + nat list" where
  "infer_size shape numel =
     (if list_ex (\<lambda>s. s < - 1) shape then Inl (CheckError ''invalid shape dimension'')
      else if 1 < length (filter (\<lambda>s. s = - 1) shape)
      then Inl (CheckError ''only one dimension can be inferred'')
      else
        let known = prod_list (map nat (filter (\<lambda>s. s \<noteq> - 1) shape)) in
        if list_ex (\<lambda>s. s = - 1) shape then
          (if known = 0 \<or> numel mod known \<noteq> 0
           then Inl (CheckError ''shape is invalid for input size'')
           else Inr (map (\<lambda>s. if s = - 1 then numel div known else nat s) shape))
        else if known = numel then Inr (map nat shape)
        else Inl (CheckError ''shape is invalid for input size''))"

text \<open>
  Modelled from the spec: \<^verbatim>\<open>at::_unsafe_view(self, size)\<close>, "reinterpret a tensor's shape
  ..., valid only when the tensor is contiguous": a view of the same storage with the
  completed shape.
\<close>

definition at_unsafe_view :: "tensor \<Rightarrow> int list \<Rightarrow> error + tensor" where
  "at_unsafe_view t size_req =
     bind (infer_size size_req (prod_list (sizes t))) (\<lambda>shape.
       if strides t = contiguous_strides (sizes t)
       then Inr (t\<lparr>sizes := shape, strides := contiguous_strides shape\<rparr>)
       else Inl (CheckError ''view size is not compatible with input tensor size and stride''))"

subsection \<open>The batch-dimension utility layer\<close>

text \<open>
  The three helpers of \<^verbatim>\<open>BatchRulesHelper.h\<close>, which the sources here include.

  Modelled from the spec: \<^verbatim>\<open>rankWithoutBatchDim\<close>, "the tensor's rank minus one if
  \<open>bdim\<close> is present, else its rank unchanged".
\<close>

definition rankWithoutBatchDim :: "tensor \<Rightarrow> int option \<Rightarrow> int" where
  "rankWithoutBatchDim t maybe_batch_dim =
     (if maybe_batch_dim \<noteq> None then int (tensor_dim t) - 1 else int (tensor_dim t))"

text \<open>
  Modelled from the spec: \<^verbatim>\<open>moveBatchDimToFront\<close>, "if \<open>bdim\<close> is absent, returns the
  tensor unchanged; if present and already at axis 0, returns unchanged; otherwise
  returns a new view with that axis permuted to position 0".
\<close>

definition moveBatchDimToFront :: "tensor \<Rightarrow> int option \<Rightarrow> error + tensor" where
  "moveBatchDimToFront t maybe_batch_dim =
     (case maybe_batch_dim of
        None \<Rightarrow> Inr t
      | Some b \<Rightarrow> if b = 0 then Inr t else movedim t b 0)"

text \<open>
  Modelled from the spec: \<^verbatim>\<open>getPhysicalDim\<close>, the logical dimension "resolved in the
  un-batched rank space first, then shifted" by one when a batch dimension is present
  (at the front).
\<close>

definition getPhysicalDim :: "tensor \<Rightarrow> bool \<Rightarrow> int \<Rightarrow> error + int" where
  "getPhysicalDim t has_batch_dim logical_dim =
     (let bdim = (if has_batch_dim then Some 0 else None);
          rank = rankWithoutBatchDim t bdim
      in bind (maybe_wrap_dim logical_dim rank) (\<lambda>wrapped_dim.
           if has_batch_dim then Inr (int wrapped_dim + 1) else Inr (int wrapped_dim)))"

subsection \<open>The batching rules\<close>

text \<open>
  Each rule takes the operator's arguments, the tensor followed by its optional batch
  dimension, and returns the result with the batch dimension of the output. A rule that
  allocates also takes the memory and returns the new one.
\<close>

definition unsqueeze_batch_rule :: "tensor \<Rightarrow> int option \<Rightarrow> int \<Rightarrow> error + (tensor \<times> int option)" where
  "unsqueeze_batch_rule self self_bdim d =
     bind (moveBatchDimToFront self self_bdim) (\<lambda>self'.
       let rank = rankWithoutBatchDim self self_bdim in
       bind (maybe_wrap_dim d (rank + 1)) (\<lambda>wrapped.
         let d' = int wrapped + 1 in
         bind (unsqueeze self' d') (\<lambda>r. Inr (r, Some 0))))"

function repeat_pad :: "tensor \<Rightarrow> nat \<Rightarrow> error + tensor" where
  "repeat_pad self' n =
     (if tensor_dim self' < n
      then (case unsqueeze self' 1 of Inl e \<Rightarrow> Inl e | Inr t \<Rightarrow> repeat_pad t n)
      else Inr self')"
  by pat_completeness auto
termination
  by (relation "measure (\<lambda>(t, n). n - tensor_dim t)")
    (auto simp: unsqueeze_def bind_def tensor_dim_def insert_at_def Let_def split: sum.splits)

declare repeat_pad.simps [simp del]

text \<open>
  \<^term>\<open>repeat_pad\<close> is the loop \<^verbatim>\<open>while (self_.dim() < sizes_with_bdim.size())
  self_ = self_.unsqueeze(1)\<close>; every round adds an axis, so it ends.
\<close>

definition repeat_batch_rule ::
  "tensor \<Rightarrow> int option \<Rightarrow> int list \<Rightarrow> 'a mem \<Rightarrow> error + ((tensor \<times> int option) \<times> 'a mem)" where
  "repeat_batch_rule self self_bdim sizes_req m =
     (let sizes_with_bdim = 1 # sizes_req in
      bind (moveBatchDimToFront self self_bdim) (\<lambda>self0.
      bind (repeat_pad self0 (length sizes_with_bdim)) (\<lambda>self'.
      bind (at_repeat self' sizes_with_bdim m) (\<lambda>(r, m'). Inr ((r, Some 0), m')))))"

definition diag_batch_rule ::
  "tensor \<Rightarrow> int option \<Rightarrow> int \<Rightarrow> 'a::zero mem \<Rightarrow> error + ((tensor \<times> int option) \<times> 'a mem)" where
  "diag_batch_rule input input_bdim diagonal m =
     (if input_bdim = None
      then bind (at_diag input diagonal m) (\<lambda>(r, m'). Inr ((r, None), m'))
      else
        bind (moveBatchDimToFront input input_bdim) (\<lambda>input'.
          let rank = rankWithoutBatchDim input input_bdim in
          if rank = 1
          then bind (at_diag_embed input' diagonal m) (\<lambda>(r, m'). Inr ((r, Some 0), m'))
          else if rank = 2
          then bind (movedim input' 0 (- 1)) (\<lambda>moved.
               bind (at_diagonal moved diagonal 0 1) (\<lambda>d.
                 let (r, m') = clone d m in Inr ((r, Some (rank - 2)), m')))
          else Inl (RuntimeError ''Passed in an invalid shape to at::diag'')))"

text \<open>
  The \<^verbatim>\<open>_unsafe_view\<close> rule reads \<^verbatim>\<open>*self_bdim\<close> without a test and inserts at
  \<^verbatim>\<open>view_size.begin() + *self_bdim\<close>: an absent index and a position outside the
  vector have no defined behaviour.
\<close>

definition unsafe_view_batch_rule ::
  "tensor \<Rightarrow> int option \<Rightarrow> int list \<Rightarrow> error + (tensor \<times> int option)" where
  "unsafe_view_batch_rule self self_bdim size_req =
     (case self_bdim of
        None \<Rightarrow> Inl (Undefined ''value of an empty optional'')
      | Some b \<Rightarrow>
          if b < 0 \<or> int (length size_req) < b
          then Inl (Undefined ''insert position outside the vector'')
          else bind (tensor_size self b) (\<lambda>batch.
                 let view_size = insert_at (nat b) (int batch) size_req in
                 bind (at_unsafe_view self view_size) (\<lambda>r. Inr (r, self_bdim))))"

definition trace_decomp :: "tensor \<Rightarrow> 'a::comm_monoid_add mem \<Rightarrow> error + (tensor \<times> 'a mem)" where
  "trace_decomp self m = bind (at_diagonal self 0 0 1) (\<lambda>d. Inr (at_sum d m))"

definition flip_batch_rule ::
  "tensor \<Rightarrow> int option \<Rightarrow> int list \<Rightarrow> 'a mem \<Rightarrow> error + ((tensor \<times> int option) \<times> 'a mem)" where
  "flip_batch_rule self self_bdim dims m =
     bind (moveBatchDimToFront self self_bdim) (\<lambda>self'.
     bind (mapM (\<lambda>i. getPhysicalDim self True i) dims) (\<lambda>new_dims.
     bind (at_flip self' new_dims m) (\<lambda>(r, m'). Inr ((r, Some 0), m'))))"

subsection \<open>In-place resize under vmap\<close>

text \<open>
  Modelled from the spec: the batched wrapper (\<^verbatim>\<open>BatchedTensorImpl\<close>) and the state the
  plumbing reads, both declared outside the sources here. \<^verbatim>\<open>resize__plumbing\<close> works on
  tensor handles: a \<^verbatim>\<open>Tensor\<close> of the C++ is a reference
  to an object that is either a plain tensor or a batched wrapper around another
  handle, and \<^verbatim>\<open>resize_\<close> changes the object behind the handle. The state holds the
  objects by handle, the buffers, the identifier of the current vmap level (if any) and
  whether the batching dispatch key is excluded.
\<close>

datatype memory_format = Contiguous | Preserve | ChannelsLast | ChannelsLast3d

record batched_impl =
  bt_value :: nat
  bt_bdim :: int
  bt_level :: int
  bt_sizes :: "nat list"
  bt_strides :: "nat list"

datatype impl = Plain tensor | Batched batched_impl

record 'a vstate =
  heap :: "'a mem"
  impls :: "nat \<Rightarrow> impl"
  next_handle :: nat
  dynamic_layer :: "int option"
  batched_key_excluded :: bool

definition impl_sizes :: "'a vstate \<Rightarrow> nat \<Rightarrow> nat list" where
  "impl_sizes st h = (case impls st h of Plain t \<Rightarrow> sizes t | Batched w \<Rightarrow> bt_sizes w)"

definition impl_strides :: "'a vstate \<Rightarrow> nat \<Rightarrow> nat list" where
  "impl_strides st h = (case impls st h of Plain t \<Rightarrow> strides t | Batched w \<Rightarrow> bt_strides w)"

text \<open>
  The vmap plumbing of \<^verbatim>\<open>PlumbingHelper.h\<close> and the dynamic layer stack, which the sources
  here only call.

  Modelled from the spec: \<^verbatim>\<open>maybeCurrentDynamicLayer\<close>, the "current nesting level, if
  any".
\<close>

definition maybeCurrentDynamicLayer :: "'a vstate \<Rightarrow> int option" where
  "maybeCurrentDynamicLayer st = dynamic_layer st"

text \<open>
  Modelled from the spec: \<^verbatim>\<open>unwrapTensorAtLevel\<close>, "unwrap tensor at level ->
  (underlying tensor, optional batch index)": a wrapper of that level gives its value
  and batch dimension, anything else is returned as it is, unbatched.
\<close>

definition unwrapTensorAtLevel :: "'a vstate \<Rightarrow> nat \<Rightarrow> int \<Rightarrow> nat \<times> int option" where
  "unwrapTensorAtLevel st h lvl =
     (case impls st h of
        Plain t \<Rightarrow> (h, None)
      | Batched w \<Rightarrow> if bt_level w = lvl then (bt_value w, Some (bt_bdim w)) else (h, None))"

text \<open>
  Modelled from the spec: \<^verbatim>\<open>maybeGetBatchedImpl\<close>, the wrapper behind a handle, if it is
  one.
\<close>

definition maybeGetBatchedImpl :: "'a vstate \<Rightarrow> nat \<Rightarrow> batched_impl option" where
  "maybeGetBatchedImpl st h = (case impls st h of Plain t \<Rightarrow> None | Batched w \<Rightarrow> Some w)"

text \<open>
  Modelled from the spec: \<^verbatim>\<open>refreshSizesAndStrides\<close>, "refresh the wrapper's cached
  shape/stride metadata to reflect the new underlying storage shape": they are
  recomputed from the wrapped value, the batch axis left out.
\<close>

definition refreshSizesAndStrides :: "nat \<Rightarrow> batched_impl \<Rightarrow> 'a vstate \<Rightarrow> 'a vstate" where
  "refreshSizesAndStrides h w st =
     st\<lparr>impls := (impls st)(h := Batched
          (w\<lparr>bt_sizes := remove_at (nat (bt_bdim w)) (impl_sizes st (bt_value w)),
             bt_strides := remove_at (nat (bt_bdim w)) (impl_strides st (bt_value w))\<rparr>))\<rparr>"

text \<open>
  Modelled from the spec: \<^verbatim>\<open>ExcludeDispatchKeyGuard\<close>, "scoped: guaranteed restoration
  on every exit path, including error paths": the key is excluded while the body runs
  and its former state is put back whatever the body returns.
\<close>

definition ExcludeDispatchKeyGuard ::
  "'a vstate \<Rightarrow> ('a vstate \<Rightarrow> 'r \<times> 'a vstate) \<Rightarrow> 'r \<times> 'a vstate" where
  "ExcludeDispatchKeyGuard st body =
     (let (r, st') = body (st\<lparr>batched_key_excluded := True\<rparr>)
      in (r, st'\<lparr>batched_key_excluded := batched_key_excluded st\<rparr>))"

text \<open>
  Modelled from the spec: \<^verbatim>\<open>moveBatchDimToFront\<close> on a handle. An absent or zero batch
  dimension gives the same handle back ("a lightweight alias, not a copy"); another one
  gives a handle to a new view.
\<close>

definition moveBatchDimToFront_handle ::
  "nat \<Rightarrow> int option \<Rightarrow> 'a vstate \<Rightarrow> error + (nat \<times> 'a vstate)" where
  "moveBatchDimToFront_handle h maybe_batch_dim st =
     (case maybe_batch_dim of
        None \<Rightarrow> Inr (h, st)
      | Some b \<Rightarrow>
          if b = 0 then Inr (h, st)
          else (case impls st h of
                  Plain t \<Rightarrow>
                    bind (movedim t b 0) (\<lambda>t'.
                      Inr (next_handle st,
                           st\<lparr>impls := (impls st)(next_handle st := Plain t'),
                              next_handle := Suc (next_handle st)\<rparr>))
                | Batched w \<Rightarrow> Inl (Undefined ''a wrapper inside a wrapper is not modelled'')))"

text \<open>
  Modelled from the spec: \<^verbatim>\<open>Tensor::size(dim)\<close> on a handle: the size of one axis of
  the object behind it (for a wrapper, of its cached sizes).
\<close>

definition handle_size :: "'a vstate \<Rightarrow> nat \<Rightarrow> int \<Rightarrow> error + nat" where
  "handle_size st h d =
     tensor_size \<lparr>storage = 0, offset = 0, sizes = impl_sizes st h, strides = impl_strides st h\<rparr> d"

text \<open>
  Modelled from the spec: \<^verbatim>\<open>Tensor::resize_(size)\<close>, "resize the underlying storage in
  place". A tensor that has the requested sizes already is left alone. Otherwise it gets
  the new sizes with row-major strides, and its buffer grows when it is too short for
  them: the elements it holds stay where they are in the buffer, the new cells are
  uninitialised.
\<close>

definition at_resize :: "tensor \<Rightarrow> int list \<Rightarrow> 'a mem \<Rightarrow> error + (tensor \<times> 'a mem)" where
  "at_resize t size_req m =
     (if list_ex (\<lambda>s. s < 0) size_req
      then Inl (CheckError ''Trying to create tensor with negative dimension'')
      else
        let new_sizes = map nat size_req in
        if sizes t = new_sizes then Inr (t, m)
        else
          let numel = prod_list new_sizes;
              needed = (if numel = 0 then 0 else offset t + numel);
              old = cells m (storage t);
              grown = (if length old < needed
                       then old @ map (uninit m) [length old..<needed] else old)
          in Inr (t\<lparr>sizes := new_sizes, strides := contiguous_strides new_sizes\<rparr>,
                  m\<lparr>cells := (cells m)(storage t := grown)\<rparr>))"

text \<open>
  Modelled from the spec: \<^verbatim>\<open>Tensor::resize_(size)\<close> on a handle: the plain tensor behind
  the handle is resized and stays the same object, so every holder of the handle sees
  the new sizes.
\<close>

definition resize_handle :: "nat \<Rightarrow> int list \<Rightarrow> 'a vstate \<Rightarrow> error + 'a vstate" where
  "resize_handle h size_req st =
     (case impls st h of
        Plain t \<Rightarrow>
          bind (at_resize t size_req (heap st)) (\<lambda>(t', m').
            Inr (st\<lparr>heap := m', impls := (impls st)(h := Plain t')\<rparr>))
      | Batched w \<Rightarrow> Inl (Undefined ''a wrapper inside a wrapper is not modelled''))"

text \<open>
  \<^verbatim>\<open>resize__plumbing\<close>, check by check: the memory format, the current level, the batch
  dimension of the unwrapped input, the restriction to batch dimension 0; then, with the
  dispatch key excluded, the resize of the wrapped tensor to the batch size followed by
  the requested sizes, and the refresh of the wrapper. The handle passed in is returned.
  A failed check or a failing call ends the function with the error and the state
  reached so far.
\<close>

definition resize__plumbing ::
  "nat \<Rightarrow> int list \<Rightarrow> memory_format option \<Rightarrow> 'a vstate \<Rightarrow> (error + nat) \<times> 'a vstate" where
  "resize__plumbing self size_req optional_memory_format st =
     (if \<not> (optional_memory_format = None \<or> optional_memory_format = Some Contiguous)
      then (Inl (CheckError ''resize_: batching rule only supports None or Contiguous MemoryFormat''), st)
      else
        case maybeCurrentDynamicLayer st of
          None \<Rightarrow> (Inl (InternalAssert ''maybe_layer.has_value()''), st)
        | Some cur_level \<Rightarrow>
            let (self_value, self_bdim) = unwrapTensorAtLevel st self cur_level in
            case self_bdim of
              None \<Rightarrow> (Inl (InternalAssert ''self_bdim.has_value()''), st)
            | Some b \<Rightarrow>
                if b \<noteq> 0
                then (Inl (InternalAssert ''NYI: resize_ batch rule for batch dim != 0''), st)
                else ExcludeDispatchKeyGuard st (\<lambda>st1.
                  case moveBatchDimToFront_handle self_value self_bdim st1 of
                    Inl e \<Rightarrow> (Inl e, st1)
                  | Inr (self_value', st2) \<Rightarrow>
                      (case handle_size st2 self_value' b of
                         Inl e \<Rightarrow> (Inl e, st2)
                       | Inr batch \<Rightarrow>
                           let new_size = int batch # size_req in
                           (case resize_handle self_value' new_size st2 of
                              Inl e \<Rightarrow> (Inl e, st2)
                            | Inr st3 \<Rightarrow>
                                (case maybeGetBatchedImpl st3 self of
                                   None \<Rightarrow> (Inl (InternalAssert ''batched''), st3)
                                 | Some batched \<Rightarrow>
                                     (Inr self, refreshSizesAndStrides self batched st3))))))"

subsection \<open>Well-formed tensors and example data\<close>

text \<open>A tensor has one stride for every axis.\<close>

definition wf_tensor :: "tensor \<Rightarrow> bool" where
  "wf_tensor t \<longleftrightarrow> length (strides t) = length (sizes t)"


text \<open>
  Concrete data for evaluating the rules: a memory with three buffers, a \<open>2 \<times> 3\<close>
  matrix, a \<open>2 \<times> 2 \<times> 3\<close> tensor, a tensor of four axes, and a vmap state in which handle 1
  is a wrapper of level 1 around the \<open>2 \<times> 4\<close> tensor of handle 0.
\<close>

definition example_mem :: "int mem" where
  "example_mem =
     \<lparr>cells = (\<lambda>_. [])(0 := [1, 2, 3, 4, 5, 6],
                        1 := [1, 2, 3, 4, 5, 6, 7, 8, 9, 10, 11, 12],
                        2 := [10, 11, 12, 13, 20, 21, 22, 23]),
      next_id = 3, uninit = (\<lambda>_. - 1)\<rparr>"

definition example_matrix :: tensor where
  "example_matrix = \<lparr>storage = 0, offset = 0, sizes = [2, 3], strides = [3, 1]\<rparr>"

definition example_cube :: tensor where
  "example_cube = \<lparr>storage = 1, offset = 0, sizes = [2, 2, 3], strides = [6, 3, 1]\<rparr>"

definition example_rank4 :: tensor where
  "example_rank4 = \<lparr>storage = 1, offset = 0, sizes = [2, 1, 2, 3], strides = [6, 6, 3, 1]\<rparr>"

definition example_state :: "nat \<Rightarrow> int vstate" where
  "example_state b =
     \<lparr>heap = example_mem,
      impls = (\<lambda>_. Plain \<lparr>storage = 2, offset = 0, sizes = [2, 4], strides = [4, 1]\<rparr>)
                (1 := Batched \<lparr>bt_value = 0, bt_bdim = int b, bt_level = 1,
                               bt_sizes = remove_at b [2, 4], bt_strides = remove_at b [4, 1]\<rparr>),
      next_handle = 2, dynamic_layer = Some 1, batched_key_excluded = False\<rparr>"

text \<open>
  What a caller can see of a result: the contents of a tensor in row-major order, and
  for a rule's result its shape, the batch dimension reported and the contents.
\<close>

definition tensor_values :: "'a mem \<Rightarrow> tensor \<Rightarrow> 'a list" where
  "tensor_values m t = map (elem m t) (all_idx (sizes t))"

definition observe ::
  "error + ((tensor \<times> int option) \<times> 'a mem) \<Rightarrow> error + (nat list \<times> int option \<times> 'a list)" where
  "observe res =
     (case res of Inl e \<Rightarrow> Inl e | Inr ((r, bd), m') \<Rightarrow> Inr (sizes r, bd, tensor_values m' r))"

text \<open>The length of diagonal \<open>k\<close> of an \<open>n1 \<times> n2\<close> matrix.\<close>

definition diag_len :: "nat \<Rightarrow> nat \<Rightarrow> int \<Rightarrow> nat" where
  "diag_len n1 n2 k =
     nat (if 0 \<le> k then max (min (int n1) (int n2 - k)) 0 else max (min (int n1 + k) (int n2)) 0)"

subsection \<open>Reading a freshly allocated tensor\<close>

lemma length_all_idx: "length (all_idx ns) = prod_list ns"
  by (induction ns) (simp_all add: length_concat comp_def sum_list_triv)

lemma set_all_idx: "set (all_idx ns) = {idx. list_all2 (<) idx ns}"
proof (induction ns)
  case Nil
  then show ?case by auto
next
  case (Cons n ns)
  show ?case
  proof (rule set_eqI)
    fix idx
    show "idx \<in> set (all_idx (n # ns)) \<longleftrightarrow> idx \<in> {idx. list_all2 (<) idx (n # ns)}"
      using Cons by (cases idx) (auto simp: list_all2_Cons2)
  qed
qed

lemma prod_max_valid: "list_all2 (<) idx ns \<Longrightarrow> prod_list (map (max 1) ns) = prod_list (ns::nat list)"
  by (induction idx ns rule: list_all2_induct) (auto simp: max_def)

lemma length_concat_uniform:
  "(\<And>k. k < n \<Longrightarrow> length (g k) = P) \<Longrightarrow> length (concat (map g [0..<n])) = n * P"
  by (induction n) simp_all

lemma concat_nth_uniform:
  "(\<And>k. k < n \<Longrightarrow> length (g k) = P) \<Longrightarrow> i < n \<Longrightarrow> r < P \<Longrightarrow>
     concat (map g [0..<n]) ! (i * P + r) = g i ! r"
proof (induction n)
  case 0
  then show ?case by simp
next
  case (Suc n)
  have len: "length (concat (map g [0..<n])) = n * P"
    using Suc.prems(1) by (intro length_concat_uniform) simp
  show ?case
  proof (cases "i < n")
    case True
    have "i * P + r < i * P + P" using Suc.prems(3) by simp
    also have "\<dots> = Suc i * P" by simp
    also have "\<dots> \<le> n * P" using True by (intro mult_le_mono1) simp
    finally have "i * P + r < n * P" .
    with Suc True len show ?thesis by (simp add: nth_append)
  next
    case False
    with Suc.prems have "i = n" by simp
    with Suc.prems len show ?thesis by (simp add: nth_append)
  qed
qed

lemma nth_all_idx:
  "list_all2 (<) idx ns \<Longrightarrow>
     lin idx (contiguous_strides ns) < prod_list ns \<and> all_idx ns ! lin idx (contiguous_strides ns) = idx"
proof (induction idx ns rule: list_all2_induct)
  case Nil
  then show ?case by (simp add: lin_def)
next
  case (Cons i idx n ns)
  let ?P = "prod_list ns"
  let ?r = "lin idx (contiguous_strides ns)"
  have P: "prod_list (map (max 1) ns) = ?P" using Cons.hyps(2) by (rule prod_max_valid)
  have l: "lin (i # idx) (contiguous_strides (n # ns)) = i * ?P + ?r"
    using P by (simp add: lin_def)
  have r: "?r < ?P" and v: "all_idx ns ! ?r = idx" using Cons.IH by auto
  have c: "concat (map (\<lambda>i. map ((#) i) (all_idx ns)) [0..<n]) ! (i * ?P + ?r) = map ((#) i) (all_idx ns) ! ?r"
    by (rule concat_nth_uniform) (use Cons.hyps r in \<open>simp_all add: length_all_idx\<close>)
  have "i * ?P + ?r < n * ?P"
  proof -
    have "i * ?P + ?r < i * ?P + ?P" using r by simp
    also have "\<dots> = Suc i * ?P" by simp
    also have "\<dots> \<le> n * ?P" using Cons.hyps(1) by (intro mult_le_mono1) simp
    finally show ?thesis .
  qed
  moreover have "length (concat (map (\<lambda>i. map ((#) i) (all_idx ns)) [0..<n])) = n * ?P"
    by (rule length_concat_uniform) (simp add: length_all_idx)
  ultimately show ?case unfolding l using c r v by (simp add: length_all_idx)
qed

lemma elem_new_tensor:
  assumes "new_tensor szs (map f (all_idx szs)) m = (t, m')" "list_all2 (<) idx szs"
  shows "elem m' t idx = f idx"
proof -
  from nth_all_idx [OF assms(2)]
  have a: "lin idx (contiguous_strides szs) < length (all_idx szs)"
    and b: "all_idx szs ! lin idx (contiguous_strides szs) = idx"
    by (simp_all add: length_all_idx)
  from assms(1) show ?thesis
    using a b by (auto simp: new_tensor_def elem_def)
qed

lemma sizes_new_tensor: "new_tensor szs xs m = (t, m') \<Longrightarrow> sizes t = szs \<and> storage t = next_id m \<and> offset t = 0"
  by (auto simp: new_tensor_def)

lemma same_values_iff:
  "same_values m1 t1 m2 t2 \<longleftrightarrow>
     sizes t1 = sizes t2 \<and> (\<forall>idx. list_all2 (<) idx (sizes t1) \<longrightarrow> elem m1 t1 idx = elem m2 t2 idx)"
  by (auto simp: same_values_def list_all_iff set_all_idx)

subsection \<open>Reading through views\<close>

lemma lin_Cons [simp]: "lin (i # idx) (s # ss) = i * s + lin idx ss"
  by (simp add: lin_def)

lemma lin_Nil [simp]: "lin [] ss = 0" "lin idx [] = 0"
  by (simp_all add: lin_def)

lemma lin_append:
  "length xs = length ys \<Longrightarrow> lin (xs @ xs') (ys @ ys') = lin xs ys + lin xs' ys'"
  by (simp add: lin_def)

lemma lin_insert_at:
  assumes "w \<le> length xs" "length xs = length ys"
  shows "lin (insert_at w a xs) (insert_at w b ys) = a * b + lin xs ys"
proof -
  have 1: "lin (insert_at w a xs) (insert_at w b ys)
        = lin (take w xs) (take w ys) + (a * b + lin (drop w xs) (drop w ys))"
    unfolding insert_at_def using assms by (subst lin_append) simp_all
  have 2: "lin (take w xs) (take w ys) + lin (drop w xs) (drop w ys)
        = lin (take w xs @ drop w xs) (take w ys @ drop w ys)"
    using assms by (subst lin_append) simp_all
  show ?thesis using 1 2 by simp
qed

lemma insert_remove_at: "w < length xs \<Longrightarrow> insert_at w (xs ! w) (remove_at w xs) = xs"
  by (simp add: insert_at_def remove_at_def id_take_nth_drop [symmetric] min_def)

lemma length_remove_at: "w < length xs \<Longrightarrow> length (remove_at w xs) = length xs - 1"
  by (auto simp: remove_at_def)

lemma lin_remove_at:
  assumes "w < length ss" "length idx = length ss - 1"
  shows "j * ss ! w + lin idx (remove_at w ss) = lin (insert_at w j idx) ss"
proof -
  have "lin (insert_at w j idx) (insert_at w (ss ! w) (remove_at w ss)) = j * ss ! w + lin idx (remove_at w ss)"
    using assms by (intro lin_insert_at) (auto simp: length_remove_at)
  then show ?thesis using assms by (simp add: insert_remove_at)
qed

lemma maybe_wrap_dim_ok:
  "0 \<le> d \<Longrightarrow> d < n \<Longrightarrow> maybe_wrap_dim d n = Inr (nat d)"
  by (simp add: maybe_wrap_dim_def)

lemma moveBatchDimToFront_front:
  assumes "wf_tensor t" "0 \<le> b" "b < int (tensor_dim t)"
  shows "\<exists>t'. moveBatchDimToFront t (Some b) = Inr t' \<and>
           sizes t' = sizes t ! nat b # remove_at (nat b) (sizes t) \<and>
           wf_tensor t' \<and> storage t' = storage t \<and> offset t' = offset t \<and>
           (\<forall>i rest. length rest = tensor_dim t - 1 \<longrightarrow>
               elem m t' (i # rest) = elem m t (insert_at (nat b) i rest))"
proof (cases "b = 0")
  case True
  with assms obtain x xs where "sizes t = x # xs"
    by (cases "sizes t") (auto simp: tensor_dim_def)
  with True show ?thesis
    using assms by (simp add: moveBatchDimToFront_def remove_at_def insert_at_def)
next
  case False
  let ?w = "nat b"
  have w: "?w < length (strides t)" "?w < length (sizes t)"
    using assms by (auto simp: wf_tensor_def tensor_dim_def)
  let ?t' = "t\<lparr>sizes := insert_at 0 (sizes t ! ?w) (remove_at ?w (sizes t)),
                 strides := insert_at 0 (strides t ! ?w) (remove_at ?w (strides t))\<rparr>"
  have mv: "moveBatchDimToFront t (Some b) = Inr ?t'"
    using assms False
    by (auto simp: moveBatchDimToFront_def movedim_def bind_def maybe_wrap_dim_ok)
  have el: "elem m ?t' (i # rest) = elem m t (insert_at ?w i rest)"
    if "length rest = tensor_dim t - 1" for i rest
    using lin_remove_at [of ?w "strides t" rest i] w that assms(1)
    by (simp add: elem_def insert_at_def [of 0] wf_tensor_def tensor_dim_def)
  show ?thesis
    using mv el w assms(1) by (auto simp: wf_tensor_def insert_at_def [of 0] length_remove_at)
qed

lemma select_slot:
  assumes "wf_tensor t" "0 \<le> b" "b < int (tensor_dim t)" "slot < sizes t ! nat b"
  shows "\<exists>s. select t b (int slot) = Inr s \<and>
           sizes s = remove_at (nat b) (sizes t) \<and> wf_tensor s \<and>
           (\<forall>rest. length rest = tensor_dim t - 1 \<longrightarrow>
               elem m s rest = elem m t (insert_at (nat b) slot rest))"
proof -
  let ?w = "nat b"
  have w: "?w < length (strides t)" "?w < length (sizes t)"
    using assms by (auto simp: wf_tensor_def tensor_dim_def)
  let ?s = "t\<lparr>offset := offset t + slot * strides t ! ?w,
                sizes := remove_at ?w (sizes t), strides := remove_at ?w (strides t)\<rparr>"
  have sel: "select t b (int slot) = Inr ?s"
    using assms by (auto simp: select_def bind_def maybe_wrap_dim_ok Let_def)
  have el: "elem m ?s rest = elem m t (insert_at ?w slot rest)"
    if "length rest = tensor_dim t - 1" for rest
    using lin_remove_at [of ?w "strides t" rest slot] w that assms(1)
    by (simp add: elem_def wf_tensor_def tensor_dim_def add.assoc)
  show ?thesis
    using sel el w assms(1) by (auto simp: wf_tensor_def length_remove_at)
qed

lemma moveBatchDimToFront_ok:
  assumes "0 \<le> b" "b < int (tensor_dim t)"
  shows "\<exists>t'. moveBatchDimToFront t (Some b) = Inr t'"
proof -
  have "maybe_wrap_dim 0 (int (tensor_dim t)) = Inr 0"
    using assms by (simp add: maybe_wrap_dim_def)
  then show ?thesis
    using assms by (simp add: moveBatchDimToFront_def movedim_def bind_def maybe_wrap_dim_ok)
qed

lemma insert_at_Suc_Cons: "insert_at (Suc w) a (x # xs) = x # insert_at w a xs"
  by (simp add: insert_at_def)

lemma all_idx_single: "all_idx [n] = map (\<lambda>i. [i]) [0..<n]"
proof -
  have "concat (map (\<lambda>i. [[i]]) xs) = map (\<lambda>i. [i]) xs" for xs :: "nat list"
    by (induction xs) simp_all
  then show ?thesis by simp
qed

lemma two_axes:
  assumes "wf_tensor t" "tensor_dim t = 2"
  obtains n1 n2 s1 s2 where "sizes t = [n1, n2]" "strides t = [s1, s2]"
proof -
  from assms obtain n1 n2 where a: "sizes t = [n1, n2]"
    by (cases "sizes t"; cases "tl (sizes t)") (auto simp: tensor_dim_def)
  with assms obtain s1 s2 where "strides t = [s1, s2]"
    by (cases "strides t"; cases "tl (strides t)") (auto simp: wf_tensor_def)
  with a that show ?thesis by blast
qed

lemma three_axes:
  assumes "wf_tensor t" "tensor_dim t = 3"
  obtains n1 n2 n3 s1 s2 s3 where "sizes t = [n1, n2, n3]" "strides t = [s1, s2, s3]"
proof -
  from assms obtain n1 n2 n3 where a: "sizes t = [n1, n2, n3]"
    by (cases "sizes t"; cases "tl (sizes t)"; cases "tl (tl (sizes t))") (auto simp: tensor_dim_def)
  with assms obtain s1 s2 s3 where "strides t = [s1, s2, s3]"
    by (cases "strides t"; cases "tl (strides t)"; cases "tl (tl (strides t))") (auto simp: wf_tensor_def)
  with a that show ?thesis by blast
qed

lemma wf_new_tensor: "new_tensor szs xs m = (t, m') \<Longrightarrow> wf_tensor t"
proof -
  have "length (contiguous_strides ns) = length ns" for ns
    by (induction ns) simp_all
  then show "new_tensor szs xs m = (t, m') \<Longrightarrow> wf_tensor t"
    by (auto simp: new_tensor_def wf_tensor_def)
qed

subsection \<open>The diag rule on a batched vector and on a batched matrix\<close>

lemma diag_rule_rank1:
  fixes m :: "'a::zero mem"
  assumes "wf_tensor input" "0 \<le> b" "b < int (tensor_dim input)" "tensor_dim input = 2"
  obtains front out m' B n where
    "moveBatchDimToFront input (Some b) = Inr front"
    "sizes front = [B, n]" "B = sizes input ! nat b"
    "remove_at (nat b) (sizes input) = [n]"
    "at_diag_embed front k m = Inr (out, m')"
    "diag_batch_rule input (Some b) k m = Inr ((out, Some 0), m')"
    "sizes out = [B, nat \<bar>k\<bar> + n, nat \<bar>k\<bar> + n]" "wf_tensor out"
    "\<forall>s i j. s < B \<longrightarrow> i < nat \<bar>k\<bar> + n \<longrightarrow> j < nat \<bar>k\<bar> + n \<longrightarrow>
        elem m' out [s, i, j] =
          (if int j - int i = k
           then elem m input (insert_at (nat b) s [if 0 \<le> k then i else j]) else 0)"
proof -
  from moveBatchDimToFront_front [OF assms(1-3), of m]
  obtain front where mv: "moveBatchDimToFront input (Some b) = Inr front"
    and szf: "sizes front = sizes input ! nat b # remove_at (nat b) (sizes input)"
    and wff: "wf_tensor front"
    and elf: "\<And>i rest. length rest = 1 \<Longrightarrow>
               elem m front (i # rest) = elem m input (insert_at (nat b) i rest)"
    using assms(4) by auto
  have nb: "nat b < length (sizes input)" using assms(2,3) by (simp add: tensor_dim_def)
  have df: "tensor_dim front = 2"
    using szf nb assms(4) by (simp add: tensor_dim_def length_remove_at)
  with wff obtain B n sB sn where f: "sizes front = [B, n]" "strides front = [sB, sn]"
    by (rule two_axes)
  have B: "B = sizes input ! nat b" and rm: "remove_at (nat b) (sizes input) = [n]"
    using szf f by auto
  let ?L = "nat \<bar>k\<bar> + n"
  let ?f = "\<lambda>idx. let i = idx ! Suc 0; j = idx ! Suc (Suc 0) in
              if int j - int i = k then elem m front (take (Suc 0) idx @ [if 0 \<le> k then i else j])
              else (0::'a)"
  obtain out m' where nt: "new_tensor [B, ?L, ?L] (map ?f (all_idx [B, ?L, ?L])) m = (out, m')"
    by (cases "new_tensor [B, ?L, ?L] (map ?f (all_idx [B, ?L, ?L])) m") blast
  have sz: "tensor_size front (- 1) = Inr n"
    using f by (simp add: tensor_size_def tensor_dim_def bind_def maybe_wrap_dim_def)
  have de: "at_diag_embed front k m = Inr (out, m')"
    using nt sz f by (simp add: at_diag_embed_def bind_def tensor_dim_def Let_def del: all_idx.simps)
  have rank: "rankWithoutBatchDim input (Some b) = 1"
    using assms(4) by (simp add: rankWithoutBatchDim_def)
  have rule: "diag_batch_rule input (Some b) k m = Inr ((out, Some 0), m')"
    using mv de rank by (simp add: diag_batch_rule_def bind_def)
  have so: "sizes out = [B, ?L, ?L]" using sizes_new_tensor [OF nt] by simp
  have el: "elem m' out [s, i, j] =
          (if int j - int i = k
           then elem m input (insert_at (nat b) s [if 0 \<le> k then i else j]) else 0)"
    if "s < B" "i < ?L" "j < ?L" for s i j
  proof -
    have "elem m' out [s, i, j] = ?f [s, i, j]"
      using elem_new_tensor [OF nt, of "[s, i, j]"] that by simp
    also have "\<dots> = (if int j - int i = k then elem m front [s, if 0 \<le> k then i else j] else 0)"
      by (simp add: Let_def)
    also have "\<dots> = (if int j - int i = k
           then elem m input (insert_at (nat b) s [if 0 \<le> k then i else j]) else 0)"
      using elf [of "[if 0 \<le> k then i else j]" s] by simp
    finally show ?thesis .
  qed
  then have el_all: "\<forall>s i j. s < B \<longrightarrow> i < ?L \<longrightarrow> j < ?L \<longrightarrow>
        elem m' out [s, i, j] =
          (if int j - int i = k
           then elem m input (insert_at (nat b) s [if 0 \<le> k then i else j]) else 0)"
    by blast
  show ?thesis
    by (rule that [OF mv f(1) B rm de rule so wf_new_tensor [OF nt] el_all])
qed

lemma diag_rule_rank2:
  fixes m :: "'a::zero mem"
  assumes "wf_tensor input" "0 \<le> b" "b < int (tensor_dim input)" "tensor_dim input = 3"
  obtains front moved d out m' B n1 n2 where
    "moveBatchDimToFront input (Some b) = Inr front"
    "sizes front = [B, n1, n2]" "B = sizes input ! nat b"
    "remove_at (nat b) (sizes input) = [n1, n2]"
    "movedim front 0 (- 1) = Inr moved" "sizes moved = [n1, n2, B]"
    "at_diagonal moved k 0 1 = Inr d" "storage d = storage input"
    "sizes d = [B, diag_len n1 n2 k]"
    "clone d m = (out, m')"
    "diag_batch_rule input (Some b) k m = Inr ((out, Some 0), m')"
    "sizes out = [B, diag_len n1 n2 k]" "wf_tensor out" "storage out = next_id m"
    "\<forall>s rest. length rest = 2 \<longrightarrow>
        elem m front (s # rest) = elem m input (insert_at (nat b) s rest)"
    "\<forall>s x. s < B \<longrightarrow> x < diag_len n1 n2 k \<longrightarrow>
        elem m' out [s, x] = elem m d [s, x] \<and>
        elem m d [s, x] = elem m input
          (insert_at (nat b) s (if 0 \<le> k then [x, x + nat k] else [x + nat (- k), x]))"
proof -
  from moveBatchDimToFront_front [OF assms(1-3), of m]
  obtain front where mv: "moveBatchDimToFront input (Some b) = Inr front"
    and szf: "sizes front = sizes input ! nat b # remove_at (nat b) (sizes input)"
    and wff: "wf_tensor front" and stf: "storage front = storage input"
    and elf: "\<And>i rest. length rest = 2 \<Longrightarrow>
               elem m front (i # rest) = elem m input (insert_at (nat b) i rest)"
    using assms(4) by auto
  have nb: "nat b < length (sizes input)" using assms(2,3) by (simp add: tensor_dim_def)
  have "tensor_dim front = 3"
    using szf nb assms(4) by (simp add: tensor_dim_def length_remove_at)
  with wff obtain B n1 n2 sB s1 s2 where f: "sizes front = [B, n1, n2]" "strides front = [sB, s1, s2]"
    by (rule three_axes)
  have B: "B = sizes input ! nat b" and rm: "remove_at (nat b) (sizes input) = [n1, n2]"
    using szf f by auto
  let ?moved = "front\<lparr>sizes := [n1, n2, B], strides := [s1, s2, sB]\<rparr>"
  have md: "movedim front 0 (- 1) = Inr ?moved"
    using f by (simp add: movedim_def bind_def maybe_wrap_dim_def tensor_dim_def
        insert_at_def remove_at_def)
  let ?len = "diag_len n1 n2 k"
  let ?off = "if ?len = 0 then offset front
              else if 0 \<le> k then offset front + nat k * s2 else offset front + nat (- k) * s1"
  let ?d = "front\<lparr>offset := ?off, sizes := [B, ?len], strides := [sB, s1 + s2]\<rparr>"
  have dg: "at_diagonal ?moved k 0 1 = Inr ?d"
    by (simp add: at_diagonal_def bind_def maybe_wrap_dim_def tensor_dim_def Let_def
        remove_at_def diag_len_def)
  obtain out m' where cl: "clone ?d m = (out, m')" by (cases "clone ?d m") blast
  then have nt: "new_tensor [B, ?len] (map (elem m ?d) (all_idx [B, ?len])) m = (out, m')"
    by (simp add: clone_def del: all_idx.simps)
  have rank: "rankWithoutBatchDim input (Some b) = 2"
    using assms(4) by (simp add: rankWithoutBatchDim_def)
  have rule: "diag_batch_rule input (Some b) k m = Inr ((out, Some 0), m')"
    using mv md dg cl rank by (simp add: diag_batch_rule_def bind_def)
  have el: "elem m' out [s, x] = elem m ?d [s, x] \<and>
            elem m ?d [s, x] = elem m input
               (insert_at (nat b) s (if 0 \<le> k then [x, x + nat k] else [x + nat (- k), x]))"
    if "s < B" "x < ?len" for s x
  proof -
    have 1: "elem m' out [s, x] = elem m ?d [s, x]"
      using elem_new_tensor [OF nt, of "[s, x]"] that by simp
    have "elem m ?d [s, x] = elem m front (s # (if 0 \<le> k then [x, x + nat k] else [x + nat (- k), x]))"
      using that f by (simp add: elem_def algebra_simps)
    also have "\<dots> = elem m input (insert_at (nat b) s (if 0 \<le> k then [x, x + nat k] else [x + nat (- k), x]))"
      by (rule elf) simp
    finally show ?thesis using 1 by simp
  qed
  have so: "sizes out = [B, ?len]" "storage out = next_id m"
    using sizes_new_tensor [OF nt] by simp_all
  have sm: "sizes ?moved = [n1, n2, B]" and sd: "storage ?d = storage input" "sizes ?d = [B, ?len]"
    using stf by simp_all
  have elf_all: "\<forall>s rest. length rest = 2 \<longrightarrow>
        elem m front (s # rest) = elem m input (insert_at (nat b) s rest)"
    using elf by blast
  have el_all: "\<forall>s x. s < B \<longrightarrow> x < ?len \<longrightarrow>
        elem m' out [s, x] = elem m ?d [s, x] \<and>
        elem m ?d [s, x] = elem m input
          (insert_at (nat b) s (if 0 \<le> k then [x, x + nat k] else [x + nat (- k), x]))"
    using el by blast
  show ?thesis
    by (rule that [OF mv f(1) B rm md sm dg sd cl rule so(1) wf_new_tensor [OF nt] so(2) elf_all el_all])
qed

section \<open>The claims\<close>

text \<open>
  C3. The diag rule on an input whose unbatched rank is neither 1 nor 2 fails and returns
  no tensor at all. With a batch dimension present (a valid axis of the input) the
  failure is the rule's own invalid-shape error; with no batch dimension the rule hands
  the input to the plain operator, whose rank check fails.
\<close>

theorem diag_batch_rule_invalid_rank:
  fixes m :: "'a::zero mem"
  assumes "\<forall>b. input_bdim = Some b \<longrightarrow> 0 \<le> b \<and> b < int (tensor_dim input)"
    and "rankWithoutBatchDim input input_bdim \<noteq> 1"
    and "rankWithoutBatchDim input input_bdim \<noteq> 2"
  shows "diag_batch_rule input input_bdim diagonal m =
           Inl (if input_bdim = None
                then CheckError ''diag(): expected a vector or a matrix''
                else RuntimeError ''Passed in an invalid shape to at::diag'')"
proof (cases input_bdim)
  case None
  with assms(2,3) show ?thesis
    by (simp add: diag_batch_rule_def at_diag_def bind_def rankWithoutBatchDim_def)
next
  case (Some b)
  with assms(1) obtain t' where "moveBatchDimToFront input (Some b) = Inr t'"
    using moveBatchDimToFront_ok by blast
  with Some assms(2,3) show ?thesis
    by (simp add: diag_batch_rule_def bind_def)
qed

theorem diag_batch_rule_invalid_rank_witness:
  "1 < int (tensor_dim example_rank4) \<and>
   rankWithoutBatchDim example_rank4 (Some 1) = 3 \<and>
   diag_batch_rule example_rank4 (Some 1) 0 example_mem =
     Inl (RuntimeError ''Passed in an invalid shape to at::diag'')"
proof -
  have r: "rankWithoutBatchDim example_rank4 (Some 1) = 3"
    by (simp add: rankWithoutBatchDim_def tensor_dim_def example_rank4_def)
  have v: "\<forall>b. Some 1 = Some b \<longrightarrow> 0 \<le> b \<and> b < int (tensor_dim example_rank4)"
    by (simp add: tensor_dim_def example_rank4_def)
  show ?thesis
    using diag_batch_rule_invalid_rank [of "Some 1" example_rank4 0 example_mem, OF v] r v
    by simp
qed

text \<open>
  C5. In-place resize under vmap: once the memory format is accepted, a vmap level is
  current and the input unwraps at that level to a tensor with a batch dimension other
  than 0, the call ends with the not-yet-implemented error, which is an exception
  handed to the caller, and the state is left as it was.
\<close>

theorem resize_plumbing_nonzero_bdim:
  assumes "optional_memory_format = None \<or> optional_memory_format = Some Contiguous"
    and "maybeCurrentDynamicLayer st = Some cur_level"
    and "unwrapTensorAtLevel st self cur_level = (self_value, Some b)"
    and "b \<noteq> 0"
  shows "resize__plumbing self size_req optional_memory_format st =
           (Inl (InternalAssert ''NYI: resize_ batch rule for batch dim != 0''), st)"
  using assms by (auto simp: resize__plumbing_def)

theorem resize_plumbing_nonzero_bdim_witness:
  "maybeCurrentDynamicLayer (example_state 1) = Some 1 \<and>
   unwrapTensorAtLevel (example_state 1) 1 1 = (0, Some 1) \<and>
   resize__plumbing 1 [6] None (example_state 1) =
     (Inl (InternalAssert ''NYI: resize_ batch rule for batch dim != 0''), example_state 1)"
proof -
  have l: "maybeCurrentDynamicLayer (example_state 1) = Some 1"
    by (simp add: maybeCurrentDynamicLayer_def example_state_def)
  have u: "unwrapTensorAtLevel (example_state 1) 1 1 = (0, Some 1)"
    by (simp add: unwrapTensorAtLevel_def example_state_def)
  show ?thesis
    using resize_plumbing_nonzero_bdim [of None "example_state 1" 1 1 0 1 "[6]", OF _ l u] l u
    by simp
qed

text \<open>
  C10. The \<^verbatim>\<open>_unsafe_view\<close> rule with a batch dimension \<open>b\<close> (a valid axis of the input
  and a position of the requested size list): the target shape is the requested one
  with the input's size at axis \<open>b\<close> inserted at position \<open>b\<close>, the plain operator is
  applied to the input as it is, with no canonicalization, and a result comes with the
  batch dimension \<open>b\<close> unchanged: a view of the same storage whose axis \<open>b\<close> has the
  batch size.
\<close>

theorem unsafe_view_batch_rule_batched:
  assumes "0 \<le> b" "b < int (tensor_dim self)" "b \<le> int (length size_req)"
  shows "unsafe_view_batch_rule self (Some b) size_req =
           bind (at_unsafe_view self
                   (take (nat b) size_req @ int (sizes self ! nat b) # drop (nat b) size_req))
                (\<lambda>r. Inr (r, Some b)) \<and>
         (\<forall>r out_bdim. unsafe_view_batch_rule self (Some b) size_req = Inr (r, out_bdim) \<longrightarrow>
           out_bdim = Some b \<and> storage r = storage self \<and> offset r = offset self \<and>
           length (sizes r) = Suc (length size_req) \<and> sizes r ! nat b = sizes self ! nat b)"
proof -
  have sz: "tensor_size self b = Inr (sizes self ! nat b)"
    using assms by (auto simp: tensor_size_def bind_def maybe_wrap_dim_ok)
  have 1: "unsafe_view_batch_rule self (Some b) size_req =
           bind (at_unsafe_view self
                   (take (nat b) size_req @ int (sizes self ! nat b) # drop (nat b) size_req))
                (\<lambda>r. Inr (r, Some b))"
    using assms sz by (simp add: unsafe_view_batch_rule_def bind_def insert_at_def)
  have 2: "out_bdim = Some b \<and> storage r = storage self \<and> offset r = offset self \<and>
           length (sizes r) = Suc (length size_req) \<and> sizes r ! nat b = sizes self ! nat b"
    if "unsafe_view_batch_rule self (Some b) size_req = Inr (r, out_bdim)" for r out_bdim
    using that unfolding 1 using assms
    by (auto simp: bind_def at_unsafe_view_def infer_size_def Let_def nth_append
             split: sum.splits if_splits)
  show ?thesis using 1 2 by blast
qed

theorem unsafe_view_batch_rule_batched_witness:
  "(0::int) \<le> 1 \<and> 1 < int (tensor_dim example_matrix) \<and> 1 \<le> int (length [2, - 1 :: int]) \<and>
   unsafe_view_batch_rule example_matrix (Some 1) [2, - 1] =
     Inr (\<lparr>storage = 0, offset = 0, sizes = [2, 3, 1], strides = [3, 1, 1]\<rparr>, Some 1)"
proof -
  have d: "1 < int (tensor_dim example_matrix)"
    by (simp add: tensor_dim_def example_matrix_def)
  have v: "at_unsafe_view example_matrix [2, 3, - 1]
             = Inr \<lparr>storage = 0, offset = 0, sizes = [2, 3, 1], strides = [3, 1, 1]\<rparr>"
    by (simp add: at_unsafe_view_def infer_size_def bind_def example_matrix_def)
  have "unsafe_view_batch_rule example_matrix (Some 1) [2, - 1] =
          bind (at_unsafe_view example_matrix
                  (take (nat 1) [2, - 1] @ int (sizes example_matrix ! nat 1) # drop (nat 1) [2, - 1]))
               (\<lambda>r. Inr (r, Some 1))"
    using unsafe_view_batch_rule_batched [of 1 example_matrix "[2, - 1]"] d by simp
  also have "\<dots> = Inr (\<lparr>storage = 0, offset = 0, sizes = [2, 3, 1], strides = [3, 1, 1]\<rparr>, Some 1)"
    using v by (simp add: bind_def example_matrix_def)
  finally show ?thesis using d by simp
qed

text \<open>
  C8. The unsqueeze rule on a batched input (the batch dimension \<open>b\<close> a valid axis) with a
  logical dimension \<open>d\<close> in \<open>[-(rank+1), rank]\<close>, \<open>rank\<close> the unbatched rank: \<open>d\<close> is
  wrapped into \<open>[0, rank+1)\<close> (a negative \<open>d\<close> counts from the end), the batch axis is
  moved to the front, the new axis of size 1 is inserted one position further, after the
  batch axis, and the batch dimension reported is 0. The result is a view of the same
  storage: its shape is the batch size followed by the unbatched shape with a 1 at the
  wrapped position, and it reads the elements of the input. In particular \<open>d = 0\<close> on an
  input of unbatched rank 1 gives the shape batch, 1, n.
\<close>

theorem unsqueeze_batch_rule_batched:
  assumes "wf_tensor self" "0 \<le> b" "b < int (tensor_dim self)"
    and "- (rankWithoutBatchDim self (Some b) + 1) \<le> d"
    and "d \<le> rankWithoutBatchDim self (Some b)"
  shows "\<exists>self' r wrapped.
           wrapped = (if d < 0 then d + (rankWithoutBatchDim self (Some b) + 1) else d) \<and>
           0 \<le> wrapped \<and> wrapped < rankWithoutBatchDim self (Some b) + 1 \<and>
           moveBatchDimToFront self (Some b) = Inr self' \<and>
           unsqueeze self' (wrapped + 1) = Inr r \<and>
           unsqueeze_batch_rule self (Some b) d = Inr (r, Some 0) \<and>
           storage r = storage self \<and> offset r = offset self \<and>
           sizes r = sizes self ! nat b # insert_at (nat wrapped) 1 (remove_at (nat b) (sizes self)) \<and>
           (\<forall>i idx. length idx = tensor_dim self - 1 \<longrightarrow>
              elem m r (i # insert_at (nat wrapped) 0 idx) = elem m self (insert_at (nat b) i idx)) \<and>
           (tensor_dim self = 2 \<and> d = 0 \<longrightarrow>
              sizes r = [sizes self ! nat b, 1, sizes self ! (1 - nat b)])"
proof -
  let ?rank = "rankWithoutBatchDim self (Some b)"
  let ?w = "if d < 0 then d + (?rank + 1) else d"
  have rank: "?rank = int (tensor_dim self) - 1"
    by (simp add: rankWithoutBatchDim_def)
  have w: "0 \<le> ?w" "?w < ?rank + 1" using assms(4,5) by auto
  from moveBatchDimToFront_front [OF assms(1-3), of m]
  obtain self' where mv: "moveBatchDimToFront self (Some b) = Inr self'"
    and sz: "sizes self' = sizes self ! nat b # remove_at (nat b) (sizes self)"
    and wf: "wf_tensor self'" and st: "storage self' = storage self" "offset self' = offset self"
    and el: "\<And>i rest. length rest = tensor_dim self - 1 \<Longrightarrow>
               elem m self' (i # rest) = elem m self (insert_at (nat b) i rest)"
    by blast
  have nb: "nat b < length (sizes self)" using assms(2,3) by (simp add: tensor_dim_def)
  have dim': "tensor_dim self' = tensor_dim self"
    using sz nb by (simp add: tensor_dim_def length_remove_at)
  obtain sb ss where strd: "strides self' = sb # ss" and lss: "length ss = tensor_dim self - 1"
    using wf sz nb by (cases "strides self'") (auto simp: wf_tensor_def length_remove_at tensor_dim_def)
  have wrap1: "maybe_wrap_dim d (?rank + 1) = Inr (nat ?w)"
    using assms(3-5) rank by (auto simp: maybe_wrap_dim_def)
  have wrap2: "maybe_wrap_dim (int (nat ?w) + 1) (int (tensor_dim self') + 1) = Inr (Suc (nat ?w))"
    using w rank dim' by (auto simp: maybe_wrap_dim_def Suc_nat_eq_nat_zadd1)
  define r where "r = self'\<lparr>sizes := insert_at (Suc (nat ?w)) 1 (sizes self'),
      strides := insert_at (Suc (nat ?w))
         (if tensor_dim self' \<le> Suc (nat ?w) then 1
          else sizes self' ! Suc (nat ?w) * strides self' ! Suc (nat ?w)) (strides self')\<rparr>"
  have un: "unsqueeze self' (int (nat ?w) + 1) = Inr r"
    using wrap2 by (simp add: unsqueeze_def bind_def r_def Let_def)
  have un': "unsqueeze self' (?w + 1) = Inr r"
    using un w by simp
  have rule: "unsqueeze_batch_rule self (Some b) d = Inr (r, Some 0)"
    using mv wrap1 un by (simp add: unsqueeze_batch_rule_def bind_def Let_def)
  have szr: "sizes r = sizes self ! nat b # insert_at (nat ?w) 1 (remove_at (nat b) (sizes self))"
    by (simp add: r_def sz insert_at_Suc_Cons)
  have elr: "elem m r (i # insert_at (nat ?w) 0 idx) = elem m self (insert_at (nat b) i idx)"
    if len: "length idx = tensor_dim self - 1" for i idx
  proof -
    have wl: "nat ?w \<le> length idx" using w rank len by auto
    have "lin (insert_at (nat ?w) 0 idx) (insert_at (nat ?w) x ss) = lin idx ss" for x
      using lin_insert_at [of "nat ?w" idx ss 0 x] wl len lss by simp
    then have "elem m r (i # insert_at (nat ?w) 0 idx) = elem m self' (i # idx)"
      by (simp add: r_def elem_def strd insert_at_Suc_Cons)
    then show ?thesis using el [OF len] by simp
  qed
  have part: "sizes r = [sizes self ! nat b, 1, sizes self ! (1 - nat b)]"
    if "tensor_dim self = 2" "d = 0"
  proof -
    from that obtain x y where xy: "sizes self = [x, y]"
      by (cases "sizes self"; cases "tl (sizes self)") (auto simp: tensor_dim_def)
    have "nat b = 0 \<or> nat b = 1" using nb xy by auto
    then show ?thesis using that xy by (auto simp: szr insert_at_def remove_at_def)
  qed
  show ?thesis
    using w mv un' rule st szr elr part by (auto simp: r_def)
qed


theorem unsqueeze_batch_rule_batched_witness:
  "wf_tensor example_matrix \<and> 0 < int (tensor_dim example_matrix) \<and>
   rankWithoutBatchDim example_matrix (Some 0) = 1 \<and>
   (\<exists>r. unsqueeze_batch_rule example_matrix (Some 0) 0 = Inr (r, Some 0) \<and> sizes r = [2, 1, 3])"
proof -
  have h1: "wf_tensor example_matrix" by (simp add: wf_tensor_def example_matrix_def)
  have h2: "0 < int (tensor_dim example_matrix)" by (simp add: tensor_dim_def example_matrix_def)
  have h3: "rankWithoutBatchDim example_matrix (Some 0) = 1"
    by (simp add: rankWithoutBatchDim_def tensor_dim_def example_matrix_def)
  from unsqueeze_batch_rule_batched [OF h1 _ h2, of 0 example_mem] h3
  obtain r where "unsqueeze_batch_rule example_matrix (Some 0) 0 = Inr (r, Some 0)"
    and "sizes r = sizes example_matrix ! nat 0 # insert_at (nat 0) 1 (remove_at (nat 0) (sizes example_matrix))"
    by auto
  then show ?thesis
    using h1 h2 h3 by (auto simp: example_matrix_def insert_at_def remove_at_def)
qed

text \<open>
  C2. A rule called with no batch dimension on its tensor has to give what the plain
  operator gives, with no batch dimension on the output: the note at the head of the
  source file says so ("if \<^verbatim>\<open>self_bdim\<close> is null, then we just do the operation as usual"
  and "there's no batch dim in the result"), and the diag rule does it. The unsqueeze,
  repeat, flip and \<^verbatim>\<open>_unsafe_view\<close> rules do not test the batch dimension. On the
  \<open>2 \<times> 3\<close> example matrix with no batch dimension:
  \<^item> unsqueeze at dimension 0 returns shape \<open>[2, 1, 3]\<close> and batch dimension 0, the plain
    operator shape \<open>[1, 2, 3]\<close>;
  \<^item> flip along axis 0 reverses axis 1 and reports batch dimension 0, the plain operator
    reverses axis 0;
  \<^item> repeat with factors \<open>[1, 2]\<close> returns shape \<open>[2, 1, 6]\<close> and batch dimension 0, the
    plain operator shape \<open>[2, 6]\<close>;
  \<^item> \<^verbatim>\<open>_unsafe_view\<close> to \<open>[3, 2]\<close> reads the absent index, which has no defined behaviour,
    where the plain operator returns the view;
  \<^item> diag returns what the plain operator returns, with no batch dimension.
\<close>

theorem absent_batch_dim_failing_input:
  "unsqueeze_batch_rule example_matrix None 0 =
     Inr (\<lparr>storage = 0, offset = 0, sizes = [2, 1, 3], strides = [3, 3, 1]\<rparr>, Some 0) \<and>
   unsqueeze example_matrix 0 =
     Inr \<lparr>storage = 0, offset = 0, sizes = [1, 2, 3], strides = [6, 3, 1]\<rparr> \<and>
   unsqueeze_batch_rule example_matrix None 0 \<noteq>
     bind (unsqueeze example_matrix 0) (\<lambda>r. Inr (r, None)) \<and>
   observe (flip_batch_rule example_matrix None [0] example_mem) =
     Inr ([2, 3], Some 0, [3, 2, 1, 6, 5, 4]) \<and>
   observe (bind (at_flip example_matrix [0] example_mem) (\<lambda>(r, m'). Inr ((r, None), m'))) =
     Inr ([2, 3], None, [4, 5, 6, 1, 2, 3]) \<and>
   observe (repeat_batch_rule example_matrix None [1, 2] example_mem) =
     Inr ([2, 1, 6], Some 0, [1, 2, 3, 1, 2, 3, 4, 5, 6, 4, 5, 6]) \<and>
   observe (bind (at_repeat example_matrix [1, 2] example_mem) (\<lambda>(r, m'). Inr ((r, None), m'))) =
     Inr ([2, 6], None, [1, 2, 3, 1, 2, 3, 4, 5, 6, 4, 5, 6]) \<and>
   unsafe_view_batch_rule example_matrix None [3, 2] =
     Inl (Undefined ''value of an empty optional'') \<and>
   at_unsafe_view example_matrix [3, 2] =
     Inr \<lparr>storage = 0, offset = 0, sizes = [3, 2], strides = [2, 1]\<rparr> \<and>
   observe (diag_batch_rule example_matrix None 0 example_mem) =
     observe (bind (at_diag example_matrix 0 example_mem) (\<lambda>(r, m'). Inr ((r, None), m'))) \<and>
   observe (diag_batch_rule example_matrix None 0 example_mem) = Inr ([2], None, [1, 5])"
proof -
  have u: "unsqueeze_batch_rule example_matrix None 0 =
     Inr (\<lparr>storage = 0, offset = 0, sizes = [2, 1, 3], strides = [3, 3, 1]\<rparr>, Some 0) \<and>
   unsqueeze example_matrix 0 =
     Inr \<lparr>storage = 0, offset = 0, sizes = [1, 2, 3], strides = [6, 3, 1]\<rparr> \<and>
   unsqueeze_batch_rule example_matrix None 0 \<noteq>
     bind (unsqueeze example_matrix 0) (\<lambda>r. Inr (r, None))"
    by (simp add: unsqueeze_batch_rule_def moveBatchDimToFront_def rankWithoutBatchDim_def
        maybe_wrap_dim_def unsqueeze_def bind_def tensor_dim_def example_matrix_def insert_at_def)
  have f1: "observe (flip_batch_rule example_matrix None [0] example_mem) =
     Inr ([2, 3], Some 0, [3, 2, 1, 6, 5, 4])"
    by code_simp
  have f2: "observe (bind (at_flip example_matrix [0] example_mem) (\<lambda>(r, m'). Inr ((r, None), m'))) =
     Inr ([2, 3], None, [4, 5, 6, 1, 2, 3])"
    by code_simp
  have r1: "observe (repeat_batch_rule example_matrix None [1, 2] example_mem) =
     Inr ([2, 1, 6], Some 0, [1, 2, 3, 1, 2, 3, 4, 5, 6, 4, 5, 6])"
    by code_simp
  have r2: "observe (bind (at_repeat example_matrix [1, 2] example_mem) (\<lambda>(r, m'). Inr ((r, None), m'))) =
     Inr ([2, 6], None, [1, 2, 3, 1, 2, 3, 4, 5, 6, 4, 5, 6])"
    by code_simp
  have v1: "unsafe_view_batch_rule example_matrix None [3, 2] =
     Inl (Undefined ''value of an empty optional'')"
    by (simp add: unsafe_view_batch_rule_def)
  have v2: "at_unsafe_view example_matrix [3, 2] =
     Inr \<lparr>storage = 0, offset = 0, sizes = [3, 2], strides = [2, 1]\<rparr>"
    by (simp add: at_unsafe_view_def infer_size_def bind_def example_matrix_def)
  have d1: "observe (diag_batch_rule example_matrix None 0 example_mem) = Inr ([2], None, [1, 5])"
    by code_simp
  have d2: "observe (bind (at_diag example_matrix 0 example_mem) (\<lambda>(r, m'). Inr ((r, None), m')))
     = Inr ([2], None, [1, 5])"
    by code_simp
  have d: "observe (diag_batch_rule example_matrix None 0 example_mem) =
     observe (bind (at_diag example_matrix 0 example_mem) (\<lambda>(r, m'). Inr ((r, None), m')))"
    using d1 d2 by simp
  show ?thesis using u f1 f2 r1 r2 v1 v2 d d1 by blast
qed

text \<open>
  C9. \<^verbatim>\<open>trace_decomp\<close> is the sum over the diagonal view and nothing else: it has no
  batch dimension among its arguments or results. On every matrix (rank 2) it returns
  what the native trace returns, the sum of the elements \<open>[i, i]\<close>, as a fresh tensor of
  no dimensions.
\<close>

theorem trace_decomp_is_trace:
  fixes m :: "'a::comm_monoid_add mem"
  assumes "wf_tensor self" "tensor_dim self = 2"
  shows "trace_decomp self m = at_trace self m"
proof -
  from assms obtain n1 n2 s1 s2 where sz: "sizes self = [n1, n2]" and st: "strides self = [s1, s2]"
    by (rule two_axes)
  let ?len = "min n1 n2"
  let ?d = "self\<lparr>sizes := [?len], strides := [s1 + s2]\<rparr>"
  have d: "at_diagonal self 0 0 1 = Inr ?d"
    using assms(2) sz st
    by (simp add: at_diagonal_def bind_def maybe_wrap_dim_def Let_def remove_at_def)
  have el: "elem m ?d [i] = elem m self [i, i]" for i
    by (simp add: elem_def st distrib_left)
  have "sum_list (map (elem m ?d) (all_idx (sizes ?d))) = sum_list (map (\<lambda>i. elem m self [i, i]) [0..<?len])"
    by (simp add: all_idx_single comp_def el del: all_idx.simps)
  then show ?thesis
    using d assms(2) sz by (simp add: trace_decomp_def at_trace_def at_sum_def bind_def)
qed

theorem trace_decomp_is_trace_witness:
  "wf_tensor example_matrix \<and> tensor_dim example_matrix = 2 \<and>
   trace_decomp example_matrix example_mem = at_trace example_matrix example_mem \<and>
   (case at_trace example_matrix example_mem of Inl e \<Rightarrow> [] | Inr (r, m') \<Rightarrow> tensor_values m' r) = [6]"
proof -
  have h1: "wf_tensor example_matrix" by (simp add: wf_tensor_def example_matrix_def)
  have h2: "tensor_dim example_matrix = 2" by (simp add: tensor_dim_def example_matrix_def)
  have v: "(case at_trace example_matrix example_mem of Inl e \<Rightarrow> [] | Inr (r, m') \<Rightarrow> tensor_values m' r) = [6]"
    by code_simp
  show ?thesis
    using trace_decomp_is_trace [OF h1 h2, of example_mem] h1 h2 v by simp
qed

text \<open>
  C7. The repeat rule on a batched input whose slots have shape \<open>[3]\<close> (batch size \<open>B\<close> at
  axis \<open>b\<close>, that is shape \<open>[B, 3]\<close> or \<open>[3, B]\<close>) with repeat factors \<open>[2]\<close>: the output has
  shape \<open>[B, 6]\<close> and batch dimension 0, and each of its \<open>B\<close> slots holds the same
  values as \<open>repeat([2])\<close> applied to that slot of the input.
\<close>

theorem repeat_batch_rule_slotwise:
  assumes "wf_tensor self" "tensor_dim self = 2" "0 \<le> b" "b < 2"
    and "sizes self ! (1 - nat b) = 3"
  shows "\<exists>out m'.
           repeat_batch_rule self (Some b) [2] m = Inr ((out, Some 0), m') \<and>
           sizes out = [sizes self ! nat b, 6] \<and>
           (\<forall>slot < sizes self ! nat b.
              \<exists>out_slot in_slot ref m_ref.
                select out 0 (int slot) = Inr out_slot \<and>
                select self b (int slot) = Inr in_slot \<and>
                at_repeat in_slot [2] m = Inr (ref, m_ref) \<and>
                same_values m' out_slot m_ref ref)"
proof -
  let ?B = "sizes self ! nat b"
  have b': "b < int (tensor_dim self)" using assms by simp
  from assms obtain x y where xy: "sizes self = [x, y]"
    by (cases "sizes self"; cases "tl (sizes self)") (auto simp: tensor_dim_def)
  have nb: "nat b = 0 \<or> nat b = 1" using assms(3,4) by auto
  have rm: "remove_at (nat b) (sizes self) = [3]"
    using nb xy assms(5) by (auto simp: remove_at_def)
  from moveBatchDimToFront_front [OF assms(1,3) b', of m]
  obtain self' where mv: "moveBatchDimToFront self (Some b) = Inr self'"
    and sz: "sizes self' = [?B, 3]"
    and el: "\<And>i rest. length rest = 1 \<Longrightarrow>
               elem m self' (i # rest) = elem m self (insert_at (nat b) i rest)"
    using rm assms(2) by auto
  have pad: "repeat_pad self' (Suc (Suc 0)) = Inr self'"
    using sz by (subst repeat_pad.simps) (simp add: tensor_dim_def)
  let ?f = "\<lambda>idx. elem m self' (drop 0 (map2 (\<lambda>i s. i mod s) idx [?B, 3]))"
  obtain out m' where nt: "new_tensor [?B, 6] (map ?f (all_idx [?B, 6])) m = (out, m')"
    by (cases "new_tensor [?B, 6] (map ?f (all_idx [?B, 6])) m") blast
  have rep: "at_repeat self' [1, 2] m = Inr (out, m')"
    using nt sz by (simp add: at_repeat_def tensor_dim_def Let_def del: all_idx.simps)
  have rule: "repeat_batch_rule self (Some b) [2] m = Inr ((out, Some 0), m')"
    using mv pad rep by (simp add: repeat_batch_rule_def bind_def)
  have szo: "sizes out = [?B, 6]" using sizes_new_tensor [OF nt] by simp
  have wfo: "wf_tensor out" using nt by (rule wf_new_tensor)
  have slot: "\<exists>out_slot in_slot ref m_ref.
                select out 0 (int slot) = Inr out_slot \<and>
                select self b (int slot) = Inr in_slot \<and>
                at_repeat in_slot [2] m = Inr (ref, m_ref) \<and>
                same_values m' out_slot m_ref ref" if sl: "slot < ?B" for slot
  proof -
    from select_slot [OF wfo, of 0 slot m'] szo sl
    obtain out_slot where so: "select out 0 (int slot) = Inr out_slot"
      and sos: "sizes out_slot = [6]"
      and elo: "\<And>rest. length rest = 1 \<Longrightarrow> elem m' out_slot rest = elem m' out (slot # rest)"
      by (auto simp: tensor_dim_def remove_at_def insert_at_def)
    from select_slot [OF assms(1,3) b' sl, of m] rm assms(2)
    obtain in_slot where si: "select self b (int slot) = Inr in_slot"
      and sis: "sizes in_slot = [3]"
      and eli: "\<And>rest. length rest = 1 \<Longrightarrow> elem m in_slot rest = elem m self (insert_at (nat b) slot rest)"
      by auto
    let ?g = "\<lambda>idx. elem m in_slot (drop 0 (map2 (\<lambda>i s. i mod s) idx [3]))"
    obtain ref m_ref where nr: "new_tensor [6] (map ?g (all_idx [6])) m = (ref, m_ref)"
      by (cases "new_tensor [6] (map ?g (all_idx [6])) m") blast
    have rr: "at_repeat in_slot [2] m = Inr (ref, m_ref)"
      using nr sis by (simp add: at_repeat_def tensor_dim_def Let_def del: all_idx.simps)
    have "elem m' out_slot idx = elem m_ref ref idx" if v: "list_all2 (<) idx [6]" for idx
    proof -
      from v obtain j where idx: "idx = [j]" and j: "j < 6"
        by (auto simp: list_all2_Cons2)
      have "elem m' out_slot [j] = elem m' out [slot, j]" using elo by simp
      also have "\<dots> = ?f [slot, j]"
        using elem_new_tensor [OF nt, of "[slot, j]"] sl j by simp
      also have "\<dots> = elem m self' [slot, j mod 3]" using sl by simp
      also have "\<dots> = elem m in_slot [j mod 3]" using el eli by simp
      also have "\<dots> = ?g [j]" by simp
      also have "\<dots> = elem m_ref ref [j]"
        using elem_new_tensor [OF nr, of "[j]"] j by simp
      finally show ?thesis by (simp add: idx)
    qed
    then have "same_values m' out_slot m_ref ref"
      using sos sizes_new_tensor [OF nr] by (simp add: same_values_iff)
    with so si rr show ?thesis by blast
  qed
  show ?thesis using rule szo slot by blast
qed

theorem repeat_batch_rule_slotwise_witness:
  "wf_tensor example_matrix \<and> tensor_dim example_matrix = 2 \<and>
   sizes example_matrix ! (1 - nat 0) = 3 \<and>
   (\<exists>out m' out_slot in_slot ref m_ref.
      repeat_batch_rule example_matrix (Some 0) [2] example_mem = Inr ((out, Some 0), m') \<and>
      sizes out = [2, 6] \<and>
      select out 0 1 = Inr out_slot \<and> select example_matrix 0 1 = Inr in_slot \<and>
      at_repeat in_slot [2] example_mem = Inr (ref, m_ref) \<and>
      same_values m' out_slot m_ref ref) \<and>
   observe (repeat_batch_rule example_matrix (Some 0) [2] example_mem)
     = Inr ([2, 6], Some 0, [1, 2, 3, 1, 2, 3, 4, 5, 6, 4, 5, 6])"
proof -
  have h1: "wf_tensor example_matrix" by (simp add: wf_tensor_def example_matrix_def)
  have h2: "tensor_dim example_matrix = 2" by (simp add: tensor_dim_def example_matrix_def)
  have h3: "sizes example_matrix ! (1 - nat 0) = 3" by (simp add: example_matrix_def)
  have o: "observe (repeat_batch_rule example_matrix (Some 0) [2] example_mem)
     = Inr ([2, 6], Some 0, [1, 2, 3, 1, 2, 3, 4, 5, 6, 4, 5, 6])"
    by code_simp
  from repeat_batch_rule_slotwise [OF h1 h2 _ _ h3, of example_mem]
  obtain out m' where r: "repeat_batch_rule example_matrix (Some 0) [2] example_mem = Inr ((out, Some 0), m')"
    and so: "sizes out = [sizes example_matrix ! nat 0, 6]"
    and sl: "\<forall>slot < sizes example_matrix ! nat 0.
              \<exists>out_slot in_slot ref m_ref.
                select out 0 (int slot) = Inr out_slot \<and>
                select example_matrix 0 (int slot) = Inr in_slot \<and>
                at_repeat in_slot [2] example_mem = Inr (ref, m_ref) \<and>
                same_values m' out_slot m_ref ref"
    by auto
  have "(1::nat) < sizes example_matrix ! nat 0" by (simp add: example_matrix_def)
  with sl have "\<exists>out_slot in_slot ref m_ref.
                select out 0 (int 1) = Inr out_slot \<and>
                select example_matrix 0 (int 1) = Inr in_slot \<and>
                at_repeat in_slot [2] example_mem = Inr (ref, m_ref) \<and>
                same_values m' out_slot m_ref ref"
    by blast
  with r so have "\<exists>out m' out_slot in_slot ref m_ref.
      repeat_batch_rule example_matrix (Some 0) [2] example_mem = Inr ((out, Some 0), m') \<and>
      sizes out = [2, 6] \<and>
      select out 0 1 = Inr out_slot \<and> select example_matrix 0 1 = Inr in_slot \<and>
      at_repeat in_slot [2] example_mem = Inr (ref, m_ref) \<and>
      same_values m' out_slot m_ref ref"
    by (auto simp: example_matrix_def)
  with h1 h2 h3 o show ?thesis by blast
qed

text \<open>
  C4. The diag rule on a batched input of unbatched rank 2 (the batch dimension a valid
  axis, the input's buffer allocated): the batch axis is moved to the front, then to the
  last position, the diagonal view of the moved tensor is taken and cloned. The result
  lives in a fresh buffer, not the input's, which is left as it was, and holds the
  values of the diagonal view: element \<open>[s, x]\<close> is element \<open>x\<close> of the chosen diagonal
  over the two axes that trail the batch axis of the front-canonical tensor. The batch
  dimension reported is the rank of the result minus 2.
\<close>

theorem diag_batch_rule_rank2:
  fixes m :: "'a::zero mem"
  assumes "wf_tensor input" "0 \<le> b" "b < int (tensor_dim input)"
    and "rankWithoutBatchDim input (Some b) = 2"
    and "storage input < next_id m"
  shows "\<exists>front moved d out m' B n1 n2.
           moveBatchDimToFront input (Some b) = Inr front \<and> sizes front = [B, n1, n2] \<and>
           movedim front 0 (- 1) = Inr moved \<and> sizes moved = [n1, n2, B] \<and>
           at_diagonal moved diagonal 0 1 = Inr d \<and> storage d = storage input \<and>
           clone d m = (out, m') \<and>
           diag_batch_rule input (Some b) diagonal m
             = Inr ((out, Some (int (tensor_dim out) - 2)), m') \<and>
           sizes out = [B, diag_len n1 n2 diagonal] \<and>
           storage out = next_id m \<and> storage out \<noteq> storage input \<and>
           cells m' (storage input) = cells m (storage input) \<and>
           same_values m' out m d \<and>
           list_all (\<lambda>idx. elem m' out idx =
                      elem m front (if 0 \<le> diagonal
                                    then [idx ! 0, idx ! 1, idx ! 1 + nat diagonal]
                                    else [idx ! 0, idx ! 1 + nat (- diagonal), idx ! 1]))
                    (all_idx (sizes out))"
proof -
  let ?k = diagonal
  have three: "tensor_dim input = 3"
    using assms(4) by (simp add: rankWithoutBatchDim_def)
  obtain front moved d out m' B n1 n2 where
    mv: "moveBatchDimToFront input (Some b) = Inr front"
    and sf: "sizes front = [B, n1, n2]" and B: "B = sizes input ! nat b"
    and rm: "remove_at (nat b) (sizes input) = [n1, n2]"
    and md: "movedim front 0 (- 1) = Inr moved" and sm: "sizes moved = [n1, n2, B]"
    and dg: "at_diagonal moved ?k 0 1 = Inr d" and sd: "storage d = storage input"
    and szd: "sizes d = [B, diag_len n1 n2 ?k]"
    and cl: "clone d m = (out, m')"
    and rule: "diag_batch_rule input (Some b) ?k m = Inr ((out, Some 0), m')"
    and so: "sizes out = [B, diag_len n1 n2 ?k]" and wfo: "wf_tensor out"
    and fresh: "storage out = next_id m"
    and elf: "\<forall>s rest. length rest = 2 \<longrightarrow>
        elem m front (s # rest) = elem m input (insert_at (nat b) s rest)"
    and el: "\<forall>s x. s < B \<longrightarrow> x < diag_len n1 n2 ?k \<longrightarrow>
        elem m' out [s, x] = elem m d [s, x] \<and>
        elem m d [s, x] = elem m input
          (insert_at (nat b) s (if 0 \<le> ?k then [x, x + nat ?k] else [x + nat (- ?k), x]))"
    by (rule diag_rule_rank2 [OF assms(1-3) three, of ?k m])
  have bd: "int (tensor_dim out) - 2 = 0" using so by (simp add: tensor_dim_def)
  have ne: "storage out \<noteq> storage input" using fresh assms(5) by simp
  have keep: "cells m' (storage input) = cells m (storage input)"
    using cl assms(5) by (auto simp: clone_def new_tensor_def)
  have sv: "same_values m' out m d"
    unfolding same_values_iff
  proof (intro conjI allI impI)
    show "sizes out = sizes d" using so szd by simp
  next
    fix idx assume "list_all2 (<) idx (sizes out)"
    then obtain s x where "idx = [s, x]" "s < B" "x < diag_len n1 n2 ?k"
      using so by (auto simp: list_all2_Cons2)
    then show "elem m' out idx = elem m d idx" using el by simp
  qed
  have vals: "list_all (\<lambda>idx. elem m' out idx =
                      elem m front (if 0 \<le> ?k
                                    then [idx ! 0, idx ! 1, idx ! 1 + nat ?k]
                                    else [idx ! 0, idx ! 1 + nat (- ?k), idx ! 1]))
                    (all_idx (sizes out))"
    unfolding list_all_iff set_all_idx
  proof (intro ballI)
    fix idx assume "idx \<in> {idx. list_all2 (<) idx (sizes out)}"
    then obtain s x where idx: "idx = [s, x]" and sx: "s < B" "x < diag_len n1 n2 ?k"
      using so by (auto simp: list_all2_Cons2)
    have "elem m' out [s, x] = elem m input
          (insert_at (nat b) s (if 0 \<le> ?k then [x, x + nat ?k] else [x + nat (- ?k), x]))"
      using el sx by simp
    also have "\<dots> = elem m front (s # (if 0 \<le> ?k then [x, x + nat ?k] else [x + nat (- ?k), x]))"
      using elf by simp
    finally show "elem m' out idx =
                      elem m front (if 0 \<le> ?k
                                    then [idx ! 0, idx ! 1, idx ! 1 + nat ?k]
                                    else [idx ! 0, idx ! 1 + nat (- ?k), idx ! 1])"
      by (simp add: idx)
  qed
  have "moveBatchDimToFront input (Some b) = Inr front \<and> sizes front = [B, n1, n2] \<and>
           movedim front 0 (- 1) = Inr moved \<and> sizes moved = [n1, n2, B] \<and>
           at_diagonal moved diagonal 0 1 = Inr d \<and> storage d = storage input \<and>
           clone d m = (out, m') \<and>
           diag_batch_rule input (Some b) diagonal m
             = Inr ((out, Some (int (tensor_dim out) - 2)), m') \<and>
           sizes out = [B, diag_len n1 n2 diagonal] \<and>
           storage out = next_id m \<and> storage out \<noteq> storage input \<and>
           cells m' (storage input) = cells m (storage input) \<and>
           same_values m' out m d \<and>
           list_all (\<lambda>idx. elem m' out idx =
                      elem m front (if 0 \<le> diagonal
                                    then [idx ! 0, idx ! 1, idx ! 1 + nat diagonal]
                                    else [idx ! 0, idx ! 1 + nat (- diagonal), idx ! 1]))
                    (all_idx (sizes out))"
    unfolding bd using mv sf md sm dg sd cl rule so fresh ne keep sv vals by (intro conjI)
  then show ?thesis by blast
qed

theorem diag_batch_rule_rank2_witness:
  "wf_tensor example_cube \<and> 0 < int (tensor_dim example_cube) \<and>
   rankWithoutBatchDim example_cube (Some 0) = 2 \<and>
   storage example_cube < next_id example_mem \<and>
   (\<exists>out m'. diag_batch_rule example_cube (Some 0) 1 example_mem
                = Inr ((out, Some (int (tensor_dim out) - 2)), m') \<and>
              storage out = 3 \<and> storage out \<noteq> storage example_cube) \<and>
   observe (diag_batch_rule example_cube (Some 0) 1 example_mem) = Inr ([2, 2], Some 0, [2, 6, 8, 12])"
proof -
  have h1: "wf_tensor example_cube" by (simp add: wf_tensor_def example_cube_def)
  have h2: "0 < int (tensor_dim example_cube)" by (simp add: tensor_dim_def example_cube_def)
  have h3: "rankWithoutBatchDim example_cube (Some 0) = 2"
    by (simp add: rankWithoutBatchDim_def tensor_dim_def example_cube_def)
  have h4: "storage example_cube < next_id example_mem"
    by (simp add: example_cube_def example_mem_def)
  have o: "observe (diag_batch_rule example_cube (Some 0) 1 example_mem)
             = Inr ([2, 2], Some 0, [2, 6, 8, 12])"
    by code_simp
  from diag_batch_rule_rank2 [OF h1 _ h2 h3 h4, of 1]
  obtain out m' where "diag_batch_rule example_cube (Some 0) 1 example_mem
                = Inr ((out, Some (int (tensor_dim out) - 2)), m')"
    and "storage out = next_id example_mem" "storage out \<noteq> storage example_cube"
    by auto
  then have "\<exists>out m'. diag_batch_rule example_cube (Some 0) 1 example_mem
                = Inr ((out, Some (int (tensor_dim out) - 2)), m') \<and>
              storage out = 3 \<and> storage out \<noteq> storage example_cube"
    by (auto simp: example_mem_def)
  with h1 h2 h3 h4 o show ?thesis by blast
qed

text \<open>
  C1. The diag rule with a batch dimension present (a valid axis \<open>b\<close>) on an input of
  unbatched rank 1 or 2: the rule returns a tensor with batch dimension 0, and for every
  slot of the batch, indexing the output at that slot gives the same shape and values as
  the plain diag operator applied to that slot of the input: construction of the
  diagonal matrix for rank 1, extraction of the diagonal for rank 2.
\<close>

theorem diag_batch_rule_slotwise:
  fixes m :: "'a::zero mem"
  assumes "wf_tensor input" "0 \<le> b" "b < int (tensor_dim input)"
    and "rankWithoutBatchDim input (Some b) = 1 \<or> rankWithoutBatchDim input (Some b) = 2"
  shows "\<exists>out m'.
           diag_batch_rule input (Some b) diagonal m = Inr ((out, Some 0), m') \<and>
           (\<forall>slot < sizes input ! nat b.
              \<exists>out_slot in_slot ref m_ref.
                select out 0 (int slot) = Inr out_slot \<and>
                select input b (int slot) = Inr in_slot \<and>
                at_diag in_slot diagonal m = Inr (ref, m_ref) \<and>
                same_values m' out_slot m_ref ref)"
proof -
  let ?k = diagonal
  from assms(4) consider (one) "tensor_dim input = 2" | (two) "tensor_dim input = 3"
    by (auto simp: rankWithoutBatchDim_def)
  then show ?thesis
  proof cases
    case one
    obtain front out m' B n where
      "moveBatchDimToFront input (Some b) = Inr front"
      "sizes front = [B, n]" and B: "B = sizes input ! nat b"
      and rm: "remove_at (nat b) (sizes input) = [n]"
      and "at_diag_embed front ?k m = Inr (out, m')"
      and rule: "diag_batch_rule input (Some b) ?k m = Inr ((out, Some 0), m')"
      and so: "sizes out = [B, nat \<bar>?k\<bar> + n, nat \<bar>?k\<bar> + n]" and wfo: "wf_tensor out"
      and el: "\<forall>s i j. s < B \<longrightarrow> i < nat \<bar>?k\<bar> + n \<longrightarrow> j < nat \<bar>?k\<bar> + n \<longrightarrow>
        elem m' out [s, i, j] =
          (if int j - int i = ?k
           then elem m input (insert_at (nat b) s [if 0 \<le> ?k then i else j]) else 0)"
      by (rule diag_rule_rank1 [OF assms(1-3) one, of ?k m])
    let ?L = "nat \<bar>?k\<bar> + n"
    have "\<exists>out_slot in_slot ref m_ref.
                select out 0 (int slot) = Inr out_slot \<and>
                select input b (int slot) = Inr in_slot \<and>
                at_diag in_slot ?k m = Inr (ref, m_ref) \<and>
                same_values m' out_slot m_ref ref" if sl: "slot < B" for slot
    proof -
      from select_slot [OF wfo, of 0 slot m'] so sl
      obtain out_slot where s1: "select out 0 (int slot) = Inr out_slot"
        and s1s: "sizes out_slot = [?L, ?L]"
        and s1e: "\<And>rest. length rest = 2 \<Longrightarrow> elem m' out_slot rest = elem m' out (slot # rest)"
        by (auto simp: tensor_dim_def remove_at_def insert_at_def)
      from select_slot [OF assms(1-3), of slot m] sl B rm one
      obtain in_slot where s2: "select input b (int slot) = Inr in_slot"
        and s2s: "sizes in_slot = [n]"
        and s2e: "\<And>rest. length rest = 1 \<Longrightarrow>
                    elem m in_slot rest = elem m input (insert_at (nat b) slot rest)"
        by auto
      let ?g = "\<lambda>idx. let i = idx ! 0; j = idx ! 1 in
                  if int j - int i = ?k then elem m in_slot [if 0 \<le> ?k then i else j] else (0::'a)"
      obtain ref m_ref where nr: "new_tensor [?L, ?L] (map ?g (all_idx [?L, ?L])) m = (ref, m_ref)"
        by (cases "new_tensor [?L, ?L] (map ?g (all_idx [?L, ?L])) m") blast
      have dg: "at_diag in_slot ?k m = Inr (ref, m_ref)"
        using nr s2s by (simp add: at_diag_def tensor_dim_def Let_def del: all_idx.simps)
      have "elem m' out_slot idx = elem m_ref ref idx" if v: "list_all2 (<) idx [?L, ?L]" for idx
      proof -
        from v obtain i j where idx: "idx = [i, j]" and ij: "i < ?L" "j < ?L"
          by (auto simp: list_all2_Cons2)
        have "elem m' out_slot [i, j] = elem m' out [slot, i, j]" using s1e by simp
        also have "\<dots> = (if int j - int i = ?k
           then elem m input (insert_at (nat b) slot [if 0 \<le> ?k then i else j]) else 0)"
          using el sl ij by blast
        also have "\<dots> = ?g [i, j]" using s2e by (simp add: Let_def)
        also have "\<dots> = elem m_ref ref [i, j]"
          using elem_new_tensor [OF nr, of "[i, j]"] ij by simp
        finally show ?thesis by (simp add: idx)
      qed
      then have "same_values m' out_slot m_ref ref"
        using s1s sizes_new_tensor [OF nr] by (simp add: same_values_iff)
      with s1 s2 dg show ?thesis by blast
    qed
    with rule B show ?thesis by blast
  next
    case two
    obtain front moved d out m' B n1 n2 where
      "moveBatchDimToFront input (Some b) = Inr front"
      "sizes front = [B, n1, n2]" and B: "B = sizes input ! nat b"
      and rm: "remove_at (nat b) (sizes input) = [n1, n2]"
      and "movedim front 0 (- 1) = Inr moved" "sizes moved = [n1, n2, B]"
        "at_diagonal moved ?k 0 1 = Inr d" "storage d = storage input"
        "sizes d = [B, diag_len n1 n2 ?k]"
        "clone d m = (out, m')"
      and rule: "diag_batch_rule input (Some b) ?k m = Inr ((out, Some 0), m')"
      and so: "sizes out = [B, diag_len n1 n2 ?k]" and wfo: "wf_tensor out"
      and "storage out = next_id m"
      and "\<forall>s rest. length rest = 2 \<longrightarrow>
        elem m front (s # rest) = elem m input (insert_at (nat b) s rest)"
      and el: "\<forall>s x. s < B \<longrightarrow> x < diag_len n1 n2 ?k \<longrightarrow>
        elem m' out [s, x] = elem m d [s, x] \<and>
        elem m d [s, x] = elem m input
          (insert_at (nat b) s (if 0 \<le> ?k then [x, x + nat ?k] else [x + nat (- ?k), x]))"
      by (rule diag_rule_rank2 [OF assms(1-3) two, of ?k m])
    let ?len = "diag_len n1 n2 ?k"
    have "\<exists>out_slot in_slot ref m_ref.
                select out 0 (int slot) = Inr out_slot \<and>
                select input b (int slot) = Inr in_slot \<and>
                at_diag in_slot ?k m = Inr (ref, m_ref) \<and>
                same_values m' out_slot m_ref ref" if sl: "slot < B" for slot
    proof -
      from select_slot [OF wfo, of 0 slot m'] so sl
      obtain out_slot where s1: "select out 0 (int slot) = Inr out_slot"
        and s1s: "sizes out_slot = [?len]"
        and s1e: "\<And>rest. length rest = 1 \<Longrightarrow> elem m' out_slot rest = elem m' out (slot # rest)"
        by (auto simp: tensor_dim_def remove_at_def insert_at_def)
      from select_slot [OF assms(1-3), of slot m] sl B rm two
      obtain in_slot where s2: "select input b (int slot) = Inr in_slot"
        and s2s: "sizes in_slot = [n1, n2]"
        and s2e: "\<And>rest. length rest = 2 \<Longrightarrow>
                    elem m in_slot rest = elem m input (insert_at (nat b) slot rest)"
        by auto
      let ?g = "\<lambda>idx. let x = idx ! 0 in
                  elem m in_slot (if 0 \<le> ?k then [x, x + nat ?k] else [x + nat (- ?k), x])"
      obtain ref m_ref where nr: "new_tensor [?len] (map ?g (all_idx [?len])) m = (ref, m_ref)"
        by (cases "new_tensor [?len] (map ?g (all_idx [?len])) m") blast
      have dg: "at_diag in_slot ?k m = Inr (ref, m_ref)"
        using nr s2s
        by (simp add: at_diag_def tensor_dim_def Let_def diag_len_def del: all_idx.simps)
      have "elem m' out_slot idx = elem m_ref ref idx" if v: "list_all2 (<) idx [?len]" for idx
      proof -
        from v obtain x where idx: "idx = [x]" and x: "x < ?len"
          by (auto simp: list_all2_Cons2)
        have "elem m' out_slot [x] = elem m' out [slot, x]" using s1e by simp
        also have "\<dots> = elem m input
          (insert_at (nat b) slot (if 0 \<le> ?k then [x, x + nat ?k] else [x + nat (- ?k), x]))"
          using el sl x by simp
        also have "\<dots> = ?g [x]" using s2e by (simp add: Let_def)
        also have "\<dots> = elem m_ref ref [x]"
          using elem_new_tensor [OF nr, of "[x]"] x by simp
        finally show ?thesis by (simp add: idx)
      qed
      then have "same_values m' out_slot m_ref ref"
        using s1s sizes_new_tensor [OF nr] by (simp add: same_values_iff)
      with s1 s2 dg show ?thesis by blast
    qed
    with rule B show ?thesis by blast
  qed
qed

theorem diag_batch_rule_slotwise_witness:
  "wf_tensor example_cube \<and> 2 < int (tensor_dim example_cube) \<and>
   rankWithoutBatchDim example_cube (Some 2) = 2 \<and>
   (\<exists>out m' out_slot in_slot ref m_ref.
      diag_batch_rule example_cube (Some 2) (- 1) example_mem = Inr ((out, Some 0), m') \<and>
      select out 0 1 = Inr out_slot \<and> select example_cube 2 1 = Inr in_slot \<and>
      at_diag in_slot (- 1) example_mem = Inr (ref, m_ref) \<and>
      same_values m' out_slot m_ref ref) \<and>
   observe (diag_batch_rule example_cube (Some 2) (- 1) example_mem) = Inr ([3, 1], Some 0, [7, 8, 9])"
proof -
  have h1: "wf_tensor example_cube" by (simp add: wf_tensor_def example_cube_def)
  have h2: "2 < int (tensor_dim example_cube)" by (simp add: tensor_dim_def example_cube_def)
  have h3: "rankWithoutBatchDim example_cube (Some 2) = 2"
    by (simp add: rankWithoutBatchDim_def tensor_dim_def example_cube_def)
  have o: "observe (diag_batch_rule example_cube (Some 2) (- 1) example_mem)
             = Inr ([3, 1], Some 0, [7, 8, 9])"
    by code_simp
  from diag_batch_rule_slotwise [OF h1 _ h2, of "- 1" example_mem] h3
  obtain out m' where r: "diag_batch_rule example_cube (Some 2) (- 1) example_mem = Inr ((out, Some 0), m')"
    and sl: "\<forall>slot < sizes example_cube ! nat 2.
              \<exists>out_slot in_slot ref m_ref.
                select out 0 (int slot) = Inr out_slot \<and>
                select example_cube 2 (int slot) = Inr in_slot \<and>
                at_diag in_slot (- 1) example_mem = Inr (ref, m_ref) \<and>
                same_values m' out_slot m_ref ref"
    by auto
  have "(1::nat) < sizes example_cube ! nat 2" by (simp add: example_cube_def)
  with sl have "\<exists>out_slot in_slot ref m_ref.
                select out 0 (int 1) = Inr out_slot \<and>
                select example_cube 2 (int 1) = Inr in_slot \<and>
                at_diag in_slot (- 1) example_mem = Inr (ref, m_ref) \<and>
                same_values m' out_slot m_ref ref"
    by blast
  with r have "\<exists>out m' out_slot in_slot ref m_ref.
      diag_batch_rule example_cube (Some 2) (- 1) example_mem = Inr ((out, Some 0), m') \<and>
      select out 0 1 = Inr out_slot \<and> select example_cube 2 1 = Inr in_slot \<and>
      at_diag in_slot (- 1) example_mem = Inr (ref, m_ref) \<and>
      same_values m' out_slot m_ref ref"
    by auto
  with h1 h2 h3 o show ?thesis by blast
qed

text \<open>
  C6, as stated, fails for a batch of two: resizing the wrapper of a \<open>2 \<times> 4\<close> tensor to
  per-slot shape \<open>[6]\<close> returns the same handle and leaves a \<open>2 \<times> 6\<close> tensor, but the
  first four columns of slot 1, which held 20, 21, 22, 23, now read 22, 23 and two
  uninitialised cells: the buffer keeps its elements where they are and the rows of the
  new shape are six cells apart.
\<close>

theorem resize_plumbing_slot_counterexample:
  "(case resize__plumbing 1 [6] None (example_state 0) of
      (r, st') \<Rightarrow> (r, impl_sizes st' 0,
                   case impls st' 0 of Plain t' \<Rightarrow> map (\<lambda>j. elem (heap st') t' [1, j]) [0, 1, 2, 3]
                                   | Batched w \<Rightarrow> []))
     = (Inr 1, [2, 6], [22, 23, - 1, - 1]) \<and>
   (case impls (example_state 0) 0 of
      Plain t \<Rightarrow> map (\<lambda>j. elem (heap (example_state 0)) t [1, j]) [0, 1, 2, 3]
    | Batched w \<Rightarrow> []) = [20, 21, 22, 23]"
  by code_simp

text \<open>
  C6, amended. In-place resize under vmap with batch dimension 0, on the wrapper of a
  row-major tensor of shape \<open>[B, 4]\<close> that fits in its buffer, to the per-slot shape
  \<open>[6]\<close>: the call returns the handle it was given; the wrapped tensor is the same object
  with shape \<open>[B, 6]\<close> in the same buffer, the wrapper's cached shape is \<open>[6]\<close>, and the
  dispatch key is as before. Every element of the buffer stays at its position in the
  buffer, so the first four columns of slot 0 keep their values.
\<close>

theorem resize_plumbing_grows_storage:
  fixes st :: "'a vstate"
  assumes fmt: "optional_memory_format = None \<or> optional_memory_format = Some Contiguous"
    and lay: "maybeCurrentDynamicLayer st = Some lvl"
    and w: "impls st self = Batched w" "bt_level w = lvl" "bt_bdim w = 0"
    and t: "impls st (bt_value w) = Plain t" "sizes t = [B, 4]" "strides t = [4, 1]"
    and fits: "offset t + B * 4 \<le> length (cells (heap st) (storage t))"
  shows "\<exists>st' t'.
           resize__plumbing self [6] optional_memory_format st = (Inr self, st') \<and>
           impls st' (bt_value w) = Plain t' \<and>
           sizes t' = [B, 6] \<and> strides t' = [6, 1] \<and>
           storage t' = storage t \<and> offset t' = offset t \<and>
           impls st' self = Batched (w\<lparr>bt_sizes := [6], bt_strides := [1]\<rparr>) \<and>
           batched_key_excluded st' = batched_key_excluded st \<and>
           (\<forall>p < length (cells (heap st) (storage t)).
              cells (heap st') (storage t) ! p = cells (heap st) (storage t) ! p) \<and>
           (\<forall>j < 4. 0 < B \<longrightarrow> elem (heap st') t' [0, j] = elem (heap st) t [0, j])"
proof -
  let ?v = "bt_value w"
  let ?st1 = "st\<lparr>batched_key_excluded := True\<rparr>"
  let ?old = "cells (heap st) (storage t)"
  let ?needed = "if B * 6 = 0 then 0 else offset t + B * 6"
  let ?grown = "if length ?old < ?needed
                then ?old @ map (uninit (heap st)) [length ?old..<?needed] else ?old"
  let ?t' = "t\<lparr>sizes := [B, 6], strides := [6, 1]\<rparr>"
  let ?m' = "(heap st)\<lparr>cells := (cells (heap st))(storage t := ?grown)\<rparr>"
  let ?st3 = "?st1\<lparr>heap := ?m', impls := (impls ?st1)(?v := Plain ?t')\<rparr>"
  let ?w' = "w\<lparr>bt_sizes := [6], bt_strides := [1]\<rparr>"
  let ?st4 = "?st3\<lparr>impls := (impls ?st3)(self := Batched ?w')\<rparr>"
  let ?st' = "?st4\<lparr>batched_key_excluded := batched_key_excluded st\<rparr>"
  have ne: "self \<noteq> ?v" using w(1) t(1) by auto
  have un: "unwrapTensorAtLevel st self lvl = (?v, Some 0)"
    using w by (simp add: unwrapTensorAtLevel_def)
  have mv: "moveBatchDimToFront_handle ?v (Some 0) ?st1 = Inr (?v, ?st1)"
    by (simp add: moveBatchDimToFront_handle_def)
  have hs: "handle_size ?st1 ?v 0 = Inr B"
    using t by (simp add: handle_size_def impl_sizes_def impl_strides_def tensor_size_def
        tensor_dim_def bind_def maybe_wrap_dim_def)
  have rs: "at_resize t [int B, 6] (heap st) = Inr (?t', ?m')"
    using t by (simp add: at_resize_def Let_def)
  have rh: "resize_handle ?v [int B, 6] ?st1 = Inr ?st3"
    using t rs by (simp add: resize_handle_def bind_def)
  have gb: "maybeGetBatchedImpl ?st3 self = Some w"
    using w ne by (simp add: maybeGetBatchedImpl_def)
  have rf: "refreshSizesAndStrides self w ?st3 = ?st4"
    using w by (simp add: refreshSizesAndStrides_def impl_sizes_def impl_strides_def remove_at_def)
  have body: "ExcludeDispatchKeyGuard st (\<lambda>st1.
                  case moveBatchDimToFront_handle ?v (Some 0) st1 of
                    Inl e \<Rightarrow> (Inl e, st1)
                  | Inr (self_value', st2) \<Rightarrow>
                      (case handle_size st2 self_value' 0 of
                         Inl e \<Rightarrow> (Inl e, st2)
                       | Inr batch \<Rightarrow>
                           let new_size = int batch # [6] in
                           (case resize_handle self_value' new_size st2 of
                              Inl e \<Rightarrow> (Inl e, st2)
                            | Inr st3 \<Rightarrow>
                                (case maybeGetBatchedImpl st3 self of
                                   None \<Rightarrow> (Inl (InternalAssert ''batched''), st3)
                                 | Some batched \<Rightarrow>
                                     (Inr self, refreshSizesAndStrides self batched st3)))))
              = (Inr self, ?st')"
    unfolding ExcludeDispatchKeyGuard_def using mv hs rh gb rf by (simp add: Let_def)
  have run: "resize__plumbing self [6] optional_memory_format st = (Inr self, ?st')"
    unfolding resize__plumbing_def using fmt lay un body by (auto simp: Let_def)
  have prefix: "cells (heap ?st') (storage t) ! p = ?old ! p" if "p < length ?old" for p
    using that by (simp add: nth_append)
  have slot0: "elem (heap ?st') ?t' [0, j] = elem (heap st) t [0, j]" if "j < 4" "0 < B" for j
  proof -
    have "offset t + j < length ?old" using that fits by simp
    then show ?thesis using t by (simp add: elem_def nth_append)
  qed
  have "resize__plumbing self [6] optional_memory_format st = (Inr self, ?st') \<and>
           impls ?st' (bt_value w) = Plain ?t' \<and>
           sizes ?t' = [B, 6] \<and> strides ?t' = [6, 1] \<and>
           storage ?t' = storage t \<and> offset ?t' = offset t \<and>
           impls ?st' self = Batched (w\<lparr>bt_sizes := [6], bt_strides := [1]\<rparr>) \<and>
           batched_key_excluded ?st' = batched_key_excluded st \<and>
           (\<forall>p < length (cells (heap st) (storage t)).
              cells (heap ?st') (storage t) ! p = cells (heap st) (storage t) ! p) \<and>
           (\<forall>j < 4. 0 < B \<longrightarrow> elem (heap ?st') ?t' [0, j] = elem (heap st) t [0, j])"
    using run ne prefix slot0 by (intro conjI) simp_all
  then show ?thesis by blast
qed

theorem resize_plumbing_grows_storage_witness:
  "maybeCurrentDynamicLayer (example_state 0) = Some 1 \<and>
   impls (example_state 0) 0 = Plain \<lparr>storage = 2, offset = 0, sizes = [2, 4], strides = [4, 1]\<rparr> \<and>
   (\<exists>st' t'. resize__plumbing 1 [6] None (example_state 0) = (Inr 1, st') \<and>
             impls st' 0 = Plain t' \<and> sizes t' = [2, 6] \<and>
             elem (heap st') t' [0, 3] = 13)"
proof -
  let ?w = "\<lparr>bt_value = 0, bt_bdim = 0, bt_level = 1, bt_sizes = [4], bt_strides = [1]\<rparr>"
  let ?t = "\<lparr>storage = 2, offset = 0, sizes = [2, 4], strides = [4, 1]\<rparr>"
  have h1: "maybeCurrentDynamicLayer (example_state 0) = Some 1"
    by (simp add: maybeCurrentDynamicLayer_def example_state_def)
  have h2: "impls (example_state 0) 1 = Batched ?w"
    by (simp add: example_state_def remove_at_def)
  have h3: "impls (example_state 0) (bt_value ?w) = Plain ?t"
    by (simp add: example_state_def)
  have h4: "offset ?t + 2 * 4 \<le> length (cells (heap (example_state 0)) (storage ?t))"
    by (simp add: example_state_def example_mem_def)
  have old: "elem (heap (example_state 0)) ?t [0, 3] = 13"
    by (simp add: elem_def example_state_def example_mem_def)
  from resize_plumbing_grows_storage [of None "example_state 0" 1 1 ?w ?t 2, OF _ h1 h2 _ _ h3 _ _ h4]
  obtain st' t' where "resize__plumbing 1 [6] None (example_state 0) = (Inr 1, st')"
    and "impls st' 0 = Plain t'" "sizes t' = [2, 6]"
    and "\<forall>j < 4. (0::nat) < 2 \<longrightarrow> elem (heap st') t' [0, j] = elem (heap (example_state 0)) ?t [0, j]"
    by auto
  then have "\<exists>st' t'. resize__plumbing 1 [6] None (example_state 0) = (Inr 1, st') \<and>
             impls st' 0 = Plain t' \<and> sizes t' = [2, 6] \<and>
             elem (heap st') t' [0, 3] = 13"
    using old by auto
  with h1 h3 show ?thesis by simp
qed

end
